theory Spec2Isabelle
  imports Main "HOL-Library.Word" "HOL-Library.Signed_Division"
begin

unbundle bit_operations_syntax

section \<open>Identifiers\<close>

text \<open>
  The Go type \<^verbatim>\<open>UUID\<close> is \<^verbatim>\<open>[16]byte\<close>. An identifier is modelled as a list of
  bytes; the array length is the well-formedness condition \<open>length u = Size\<close>.
  Text (\<^verbatim>\<open>[]byte\<close> holding characters, and Go strings) is a \<open>string\<close>.
\<close>

type_synonym byte = "8 word"
type_synonym UUID = "byte list"

text \<open>Modelled from the spec: the constant \<^verbatim>\<open>Size\<close> of uuid.go; an identifier is "always
  exactly 16 bytes".\<close>

definition Size :: nat where
  "Size = 16"

text \<open>Modelled from the spec: \<^verbatim>\<open>Nil\<close> of uuid.go, "the all-zero 16-byte value".\<close>

definition Nil_UUID :: UUID where
  "Nil_UUID = replicate 16 0"

text \<open>Every error value the sources construct. \<open>ErrWrap\<close> is \<^verbatim>\<open>fmt.Errorf("...: %w", err)\<close>.
  The two panics are what the Go runtime does on an index or slice bound that is out of
  range.\<close>

datatype error =
    ErrExpectedBytes nat nat
  | ErrParseFromString string
  | ErrIncorrectLength string
  | ErrIncorrectFormat string
  | ErrHashLike string
  | ErrIncorrectURN string
  | ErrBinaryLength nat
  | InvalidByteError char
  | ErrLength
  | ErrReader
  | ErrWrap string error
  | PanicIndexOutOfRange
  | PanicSliceBounds

text \<open>The builtin \<^verbatim>\<open>copy(dst, src)\<close>: the first \<open>min (len dst) (len src)\<close> elements of
  \<open>dst\<close> are overwritten; the result is the new content of \<open>dst\<close>.\<close>

definition copy :: "'a list \<Rightarrow> 'a list \<Rightarrow> 'a list" where
  "copy dst src = take (length dst) src @ drop (length src) dst"

text \<open>Writing through a sub-slice \<^verbatim>\<open>u[off:off+len(seg)]\<close> that aliases the array \<open>u\<close>.\<close>

definition splice :: "'a list \<Rightarrow> nat \<Rightarrow> 'a list \<Rightarrow> 'a list" where
  "splice u off seg = take off u @ seg @ drop (off + length seg) u"

section \<open>encoding/hex of the Go library\<close>

definition hextable :: string where
  "hextable = ''0123456789abcdef''"

text \<open>\<^verbatim>\<open>reverseHexTable\<close>: the value of a hexadecimal digit, \<open>None\<close> for the table's 0xff.\<close>

definition fromHexChar :: "char \<Rightarrow> byte option" where
  "fromHexChar c =
     (let n = (of_char c :: nat) in
      if 48 \<le> n \<and> n \<le> 57 then Some (of_nat (n - 48))
      else if 97 \<le> n \<and> n \<le> 102 then Some (of_nat (n - 97 + 10))
      else if 65 \<le> n \<and> n \<le> 70 then Some (of_nat (n - 65 + 10))
      else None)"

text \<open>\<^verbatim>\<open>hex.Decode(dst, src)\<close>: decodes pair by pair and stores each byte as soon as it is
  decoded, so on an error the bytes decoded before it are already in \<open>dst\<close>.\<close>

fun hexDecodeLoop :: "byte list \<Rightarrow> nat \<Rightarrow> string \<Rightarrow> byte list \<times> error option" where
  "hexDecodeLoop dst i (p # q # src) =
     (case fromHexChar p of
        None \<Rightarrow> (dst, Some (InvalidByteError p))
      | Some a \<Rightarrow>
          (case fromHexChar q of
             None \<Rightarrow> (dst, Some (InvalidByteError q))
           | Some b \<Rightarrow>
               if length dst \<le> i then (dst, Some PanicIndexOutOfRange)
               else hexDecodeLoop (dst[i := push_bit 4 a OR b]) (Suc i) src))"
| "hexDecodeLoop dst i [c] =
     (case fromHexChar c of
        None \<Rightarrow> (dst, Some (InvalidByteError c))
      | Some a \<Rightarrow> (dst, Some ErrLength))"
| "hexDecodeLoop dst i [] = (dst, None)"

definition hexDecode :: "byte list \<Rightarrow> string \<Rightarrow> byte list \<times> error option" where
  "hexDecode dst src = hexDecodeLoop dst 0 src"

text \<open>\<^verbatim>\<open>hex.Encode\<close>: two lower-case digits per byte.\<close>

fun hexEncode :: "byte list \<Rightarrow> string" where
  "hexEncode [] = []"
| "hexEncode (v # src) =
     hextable ! unat (drop_bit 4 v) # hextable ! unat (v AND 0x0f) # hexEncode src"

section \<open>Identifier primitives (uuid.go)\<close>

text \<open>Modelled from the spec: \<^verbatim>\<open>byteGroups\<close> of uuid.go, "the grouping 8-4-4-4-12".\<close>

definition byteGroups :: "nat list" where
  "byteGroups = [8, 4, 4, 4, 12]"

text \<open>Modelled from the spec: \<^verbatim>\<open>urnPrefix\<close> of uuid.go, "the literal 9-byte prefix urn:uuid:".\<close>

definition urnPrefix :: string where
  "urnPrefix = ''urn:uuid:''"

text \<open>Modelled from the spec: \<^verbatim>\<open>Bytes\<close> of uuid.go, "the 16 raw bytes, verbatim".\<close>

definition Bytes :: "UUID \<Rightarrow> byte list" where
  "Bytes u = u"

text \<open>Modelled from the spec: \<^verbatim>\<open>String\<close> of uuid.go, "the canonical lower-case hyphenated
  36-character form", the 32 hexadecimal digits in the grouping 8-4-4-4-12 with a dash at
  the offsets 8, 13, 18 and 23.\<close>

definition String :: "UUID \<Rightarrow> string" where
  "String u =
     hexEncode (take 4 u) @ CHR ''-'' #
     hexEncode (take 2 (drop 4 u)) @ CHR ''-'' #
     hexEncode (take 2 (drop 6 u)) @ CHR ''-'' #
     hexEncode (take 2 (drop 8 u)) @ CHR ''-'' #
     hexEncode (drop 10 u)"

section \<open>Codec (codec.go)\<close>

text \<open>
  The decoding methods have a pointer receiver and write into it. Each is modelled as a
  function from the receiver's content and the input to the receiver's new content and
  the returned error (\<open>None\<close> is \<^verbatim>\<open>nil\<close>).
\<close>

text \<open>The guard of \<^verbatim>\<open>decodeCanonical\<close>,
  \<^verbatim>\<open>t[8] != '-' || t[13] != '-' || t[18] != '-' || t[23] != '-'\<close>, evaluated left to
  right.\<close>

fun checkDashes :: "string \<Rightarrow> nat list \<Rightarrow> error option" where
  "checkDashes t [] = None"
| "checkDashes t (i # is) =
     (if length t \<le> i then Some PanicIndexOutOfRange
      else if t ! i \<noteq> CHR ''-'' then Some (ErrIncorrectFormat t)
      else checkDashes t is)"

text \<open>The loop of \<^verbatim>\<open>decodeCanonical\<close> over \<^verbatim>\<open>byteGroups\<close>. \<open>off\<close> is where the slice
  \<^verbatim>\<open>dst\<close> starts in the receiver, \<open>i\<close> the loop index.\<close>

fun decodeGroups :: "UUID \<Rightarrow> nat \<Rightarrow> string \<Rightarrow> nat \<Rightarrow> nat list \<Rightarrow> UUID \<times> error option" where
  "decodeGroups u off t i [] = (u, None)"
| "decodeGroups u off t i (byteGroup # groups) =
     (if 0 < i \<and> length t < 1 then (u, Some PanicSliceBounds)
      else
        let t1 = (if 0 < i then drop 1 t else t) in
        if length u < off + byteGroup div 2 \<or> length t1 < byteGroup
        then (u, Some PanicSliceBounds)
        else
          (case hexDecode (take (byteGroup div 2) (drop off u)) (take byteGroup t1) of
             (seg, Some err) \<Rightarrow> (splice u off seg, Some err)
           | (seg, None) \<Rightarrow>
               decodeGroups (splice u off seg) (off + byteGroup div 2)
                 (drop byteGroup t1) (Suc i) groups))"

definition decodeCanonical :: "UUID \<Rightarrow> string \<Rightarrow> UUID \<times> error option" where
  "decodeCanonical u t =
     (case checkDashes t [8, 13, 18, 23] of
        Some err \<Rightarrow> (u, Some err)
      | None \<Rightarrow> decodeGroups u 0 t 0 byteGroups)"

definition decodeHashLike :: "UUID \<Rightarrow> string \<Rightarrow> UUID \<times> error option" where
  "decodeHashLike u t =
     (case hexDecode u t of
        (u', Some err) \<Rightarrow> (u', Some (ErrHashLike t))
      | (u', None) \<Rightarrow> (u', None))"

definition decodePlain :: "UUID \<Rightarrow> string \<Rightarrow> UUID \<times> error option" where
  "decodePlain u t =
     (if length t = 32 then decodeHashLike u t
      else if length t = 36 then decodeCanonical u t
      else (u, Some (ErrIncorrectLength t)))"

definition decodeBraced :: "UUID \<Rightarrow> string \<Rightarrow> UUID \<times> error option" where
  "decodeBraced u t =
     (if length t < 2 \<or> t ! 0 \<noteq> CHR ''{'' \<or> t ! (length t - 1) \<noteq> CHR ''}''
      then (u, Some (ErrIncorrectFormat t))
      else decodePlain u (take (length t - 2) (drop 1 t)))"

definition decodeURN :: "UUID \<Rightarrow> string \<Rightarrow> UUID \<times> error option" where
  "decodeURN u t =
     (if length t < 9 \<or> take 9 t \<noteq> urnPrefix
      then (u, Some (ErrIncorrectURN t))
      else decodePlain u (drop 9 t))"

definition UnmarshalText :: "UUID \<Rightarrow> string \<Rightarrow> UUID \<times> error option" where
  "UnmarshalText u text =
     (if length text = 32 then decodeHashLike u text
      else if length text = 36 then decodeCanonical u text
      else if length text = 38 then decodeBraced u text
      else if length text = 41 \<or> length text = 45 then decodeURN u text
      else (u, Some (ErrIncorrectLength text)))"

definition MarshalText :: "UUID \<Rightarrow> string \<times> error option" where
  "MarshalText u = (String u, None)"

text \<open>\<^verbatim>\<open>FromString\<close> decodes into a fresh (all-zero) identifier and returns \<^verbatim>\<open>Nil\<close>
  with its own error when the decoding fails.\<close>

definition FromString :: "string \<Rightarrow> UUID \<times> error option" where
  "FromString input =
     (case UnmarshalText (replicate 16 0) input of
        (u, Some err) \<Rightarrow> (Nil_UUID, Some (ErrParseFromString input))
      | (u, None) \<Rightarrow> (u, None))"

definition FromStringOrNil :: "string \<Rightarrow> UUID" where
  "FromStringOrNil input =
     (case FromString input of
        (u, Some err) \<Rightarrow> Nil_UUID
      | (u, None) \<Rightarrow> u)"

definition MarshalBinary :: "UUID \<Rightarrow> byte list \<times> error option" where
  "MarshalBinary u = (Bytes u, None)"

definition UnmarshalBinary :: "UUID \<Rightarrow> byte list \<Rightarrow> UUID \<times> error option" where
  "UnmarshalBinary u data =
     (if length data \<noteq> Size then (u, Some (ErrBinaryLength (length data)))
      else (copy u data, None))"

definition FromBytes :: "byte list \<Rightarrow> UUID \<times> error option" where
  "FromBytes input =
     (if length input \<noteq> Size
      then (Nil_UUID, Some (ErrExpectedBytes Size (length input)))
      else UnmarshalBinary (replicate 16 0) input)"

definition FromBytesOrNil :: "byte list \<Rightarrow> UUID" where
  "FromBytesOrNil input =
     (case FromBytes input of
        (u, Some err) \<Rightarrow> Nil_UUID
      | (u, None) \<Rightarrow> u)"

section \<open>Version and variant (uuid.go)\<close>

type_synonym u16 = "16 word"
type_synonym u32 = "32 word"
type_synonym u64 = "64 word"

text \<open>Modelled from the spec: the version constants \<^verbatim>\<open>V1\<close> to \<^verbatim>\<open>V7\<close> of uuid.go, "legal
  versions: 1-7".\<close>

definition V1 :: byte where "V1 = 1"
definition V2 :: byte where "V2 = 2"
definition V3 :: byte where "V3 = 3"
definition V4 :: byte where "V4 = 4"
definition V5 :: byte where "V5 = 5"
definition V6 :: byte where "V6 = 6"
definition V7 :: byte where "V7 = 7"

text \<open>Modelled from the spec: the variant constants of uuid.go, "NCS, RFC4122, Microsoft,
  Future".\<close>

datatype variant = VariantNCS | VariantRFC4122 | VariantMicrosoft | VariantFuture

text \<open>Modelled from the spec: \<^verbatim>\<open>SetVersion\<close> and \<^verbatim>\<open>Version\<close> of uuid.go. "Version nibble
  occupies the high 4 bits of byte index 6; writing version V clears those bits then ORs
  in V << 4; reading masks and shifts back."\<close>

definition SetVersion :: "UUID \<Rightarrow> byte \<Rightarrow> UUID" where
  "SetVersion u v = u[6 := (u ! 6 AND 0x0f) OR push_bit 4 v]"

definition Version :: "UUID \<Rightarrow> byte" where
  "Version u = drop_bit 4 (u ! 6)"

text \<open>Modelled from the spec: \<^verbatim>\<open>SetVariant\<close> and \<^verbatim>\<open>Variant\<close> of uuid.go. The variant is in
  the top bits of byte 8: top bit \<open>0\<close> is NCS, top two bits \<open>10\<close> RFC4122, top three bits
  \<open>110\<close> Microsoft, \<open>111\<close> Future; reading "inspects these leading bits in priority order
  111, 110, 10, else NCS". (The tests read the byte \<open>0x80\<close> as RFC4122.)\<close>

definition SetVariant :: "UUID \<Rightarrow> variant \<Rightarrow> UUID" where
  "SetVariant u v =
     (case v of
        VariantNCS \<Rightarrow> u[8 := u ! 8 AND 0x7f]
      | VariantRFC4122 \<Rightarrow> u[8 := (u ! 8 AND 0x3f) OR 0x80]
      | VariantMicrosoft \<Rightarrow> u[8 := (u ! 8 AND 0x1f) OR 0xc0]
      | VariantFuture \<Rightarrow> u[8 := (u ! 8 AND 0x1f) OR 0xe0])"

definition Variant :: "UUID \<Rightarrow> variant" where
  "Variant u =
     (if u ! 8 AND 0xe0 = 0xe0 then VariantFuture
      else if u ! 8 AND 0xe0 = 0xc0 then VariantMicrosoft
      else if u ! 8 AND 0xc0 = 0x80 then VariantRFC4122
      else VariantNCS)"

section \<open>encoding/binary and bytes of the Go library\<close>

text \<open>\<^verbatim>\<open>binary.BigEndian.PutUint16(u[off:], v)\<close> and \<^verbatim>\<open>PutUint32\<close>, on an array in which
  the bytes written lie.\<close>

definition PutUint16 :: "byte list \<Rightarrow> nat \<Rightarrow> u16 \<Rightarrow> byte list" where
  "PutUint16 u off v = u[off := ucast (drop_bit 8 v), off + 1 := ucast v]"

definition PutUint32 :: "byte list \<Rightarrow> nat \<Rightarrow> u32 \<Rightarrow> byte list" where
  "PutUint32 u off v =
     u[off := ucast (drop_bit 24 v), off + 1 := ucast (drop_bit 16 v),
       off + 2 := ucast (drop_bit 8 v), off + 3 := ucast v]"

text \<open>\<^verbatim>\<open>binary.BigEndian.Uint16\<close> of a two-byte buffer.\<close>

definition Uint16 :: "byte list \<Rightarrow> u16" where
  "Uint16 b = ucast (b ! 1) OR push_bit 8 (ucast (b ! 0))"

text \<open>\<^verbatim>\<open>bytes.Compare\<close>: the lexicographic comparison, with the results \<open>-1\<close>, \<open>0\<close>, \<open>1\<close>.\<close>

fun bytesCompare :: "byte list \<Rightarrow> byte list \<Rightarrow> int" where
  "bytesCompare [] [] = 0"
| "bytesCompare [] (y # ys) = - 1"
| "bytesCompare (x # xs) [] = 1"
| "bytesCompare (x # xs) (y # ys) =
     (if x < y then - 1 else if y < x then 1 else bytesCompare xs ys)"

text \<open>Division of two \<^verbatim>\<open>int64\<close> values held in 64-bit words: Go truncates towards
  zero.\<close>

definition sdiv64 :: "u64 \<Rightarrow> u64 \<Rightarrow> u64" where
  "sdiv64 a b = word_of_int (sint a sdiv sint b)"

section \<open>Generator (generator.go)\<close>

text \<open>Difference in 100-nanosecond intervals between the UUID epoch and the Unix
  epoch.\<close>

definition epochStart :: u64 where
  "epochStart = 122192928000000000"

text \<open>
  The generator with what it reads from outside. \<open>clockSequenceOnce\<close> and
  \<open>hardwareAddrOnce\<close> hold whether the \<^verbatim>\<open>sync.Once\<close> has run its function.
  \<^item> \<open>rand\<close> is the \<^verbatim>\<open>io.Reader\<close>: \<open>rand g k\<close> are the bytes it delivers to the
    \<open>k\<close>-th \<^verbatim>\<open>io.ReadFull\<close> before it reports an error or its end; \<open>randCalls\<close>
    counts the calls made so far.
  \<^item> \<open>epochFunc g k\<close> is \<^verbatim>\<open>UnixNano()\<close>, an \<^verbatim>\<open>int64\<close>, of the time the \<open>k\<close>-th call of
    \<^verbatim>\<open>epochFunc\<close> returns; \<open>epochCalls\<close> counts the calls.
  \<^item> \<open>hwAddrFunc\<close> is the result of \<^verbatim>\<open>hwAddrFunc()\<close>, which is called at most once.
  The mutex is not modelled: calls are sequential.
\<close>

record rfc4122Generator =
  clockSequenceOnce :: bool
  hardwareAddrOnce :: bool
  rand :: "nat \<Rightarrow> byte list"
  randCalls :: nat
  epochFunc :: "nat \<Rightarrow> u64"
  epochCalls :: nat
  hwAddrFunc :: "error + byte list"
  lastTime :: u64
  clockSequence :: u16
  hardwareAddr :: "byte list"

text \<open>\<^verbatim>\<open>io.ReadFull(g.rand, buf)\<close>: fills \<open>buf\<close> or fails; on a failure the bytes read
  before it are in \<open>buf\<close>. The result is the new content of \<open>buf\<close> and the error.\<close>

definition ReadFull ::
  "rfc4122Generator \<Rightarrow> byte list \<Rightarrow> (byte list \<times> error option) \<times> rfc4122Generator" where
  "ReadFull g buf =
     (let avail = rand g (randCalls g);
          g' = g\<lparr>randCalls := Suc (randCalls g)\<rparr>
      in if length buf \<le> length avail then ((take (length buf) avail, None), g')
         else ((copy buf avail, Some ErrReader), g'))"

text \<open>The variables \<^verbatim>\<open>posixUID\<close> and \<^verbatim>\<open>posixGID\<close> of the package, set from the process at
  start, and the constants \<^verbatim>\<open>DomainPerson\<close> and \<^verbatim>\<open>DomainGroup\<close> of uuid.go, whose values
  generator.go does not show: \<^verbatim>\<open>NewV2\<close> takes them as a parameter.\<close>

record dce =
  DomainPerson :: byte
  DomainGroup :: byte
  posixUID :: u32
  posixGID :: u32

definition finalizeUUID :: "UUID \<Rightarrow> byte \<Rightarrow> UUID" where
  "finalizeUUID u version = SetVariant (SetVersion u version) VariantRFC4122"

text \<open>Returns difference in 100-nanosecond intervals between UUID epoch and the time
  whose \<^verbatim>\<open>UnixNano()\<close> is \<open>nanos\<close>.\<close>

definition getEpoch :: "u64 \<Rightarrow> u64" where
  "getEpoch nanos = epochStart + sdiv64 nanos 100"

text \<open>The function \<^verbatim>\<open>getClockSequence\<close> hands to \<^verbatim>\<open>clockSequenceOnce.Do\<close>; the error is
  what it leaves in the variable \<^verbatim>\<open>err\<close>.\<close>

definition initClockSequence :: "rfc4122Generator \<Rightarrow> error option \<times> rfc4122Generator" where
  "initClockSequence g =
     (case ReadFull g (replicate 2 0) of
        ((buf, Some err), g') \<Rightarrow>
          (Some (ErrWrap ''failed to read random data for clock sequence'' err), g')
      | ((buf, None), g') \<Rightarrow> (None, g'\<lparr>clockSequence := Uint16 buf\<rparr>))"

text \<open>Returns epoch and clock sequence. \<^verbatim>\<open>Once.Do(f)\<close> runs \<open>f\<close> unless it has run
  before, and has run it whatever \<open>f\<close> did.\<close>

definition getClockSequence ::
  "rfc4122Generator \<Rightarrow> (u64 \<times> u16 \<times> error option) \<times> rfc4122Generator" where
  "getClockSequence g =
     (let (err, g1) =
            (if clockSequenceOnce g then (None, g)
             else (case initClockSequence g of
                     (e, g') \<Rightarrow> (e, g'\<lparr>clockSequenceOnce := True\<rparr>)))
      in case err of
           Some e \<Rightarrow> ((0, 0, Some e), g1)
         | None \<Rightarrow>
             (let timeNow = getEpoch (epochFunc g1 (epochCalls g1));
                  g2 = g1\<lparr>epochCalls := Suc (epochCalls g1)\<rparr>;
                  g3 = (if timeNow \<le> lastTime g2
                        then g2\<lparr>clockSequence := clockSequence g2 + 1\<rparr> else g2);
                  g4 = g3\<lparr>lastTime := timeNow\<rparr>
              in ((timeNow, clockSequence g4, None), g4)))"

text \<open>The function \<^verbatim>\<open>getHardwareAddr\<close> hands to \<^verbatim>\<open>hardwareAddrOnce.Do\<close>. The random bytes
  are read into \<^verbatim>\<open>g.hardwareAddr\<close> itself.\<close>

definition initHardwareAddr :: "rfc4122Generator \<Rightarrow> error option \<times> rfc4122Generator" where
  "initHardwareAddr g =
     (case hwAddrFunc g of
        Inr hwAddr \<Rightarrow> (None, g\<lparr>hardwareAddr := copy (hardwareAddr g) hwAddr\<rparr>)
      | Inl hwErr \<Rightarrow>
          (case ReadFull g (hardwareAddr g) of
             ((buf, Some err), g') \<Rightarrow> (Some err, g'\<lparr>hardwareAddr := buf\<rparr>)
           | ((buf, None), g') \<Rightarrow> (None, g'\<lparr>hardwareAddr := buf[0 := buf ! 0 OR 0x01]\<rparr>)))"

text \<open>Returns hardware address.\<close>

definition getHardwareAddr ::
  "rfc4122Generator \<Rightarrow> (byte list \<times> error option) \<times> rfc4122Generator" where
  "getHardwareAddr g =
     (let (err, g1) =
            (if hardwareAddrOnce g then (None, g)
             else (case initHardwareAddr g of
                     (e, g') \<Rightarrow> (e, g'\<lparr>hardwareAddrOnce := True\<rparr>)))
      in case err of
           Some e \<Rightarrow> (([], Some (ErrWrap ''failed to get hardware address'' e)), g1)
         | None \<Rightarrow> ((hardwareAddr g1, None), g1))"

text \<open>NewV1 returns UUID based on current timestamp and MAC address.\<close>

definition NewV1 :: "rfc4122Generator \<Rightarrow> (UUID \<times> error option) \<times> rfc4122Generator" where
  "NewV1 g =
     (case getClockSequence g of
        ((timeNow, clockSeq, Some err), g1) \<Rightarrow>
          ((Nil_UUID, Some (ErrWrap ''failed to get clock sequence'' err)), g1)
      | ((timeNow, clockSeq, None), g1) \<Rightarrow>
          (let u0 = replicate 16 0;
               u1 = PutUint32 u0 0 (ucast timeNow);
               u2 = PutUint16 u1 4 (ucast (drop_bit 32 timeNow));
               u3 = PutUint16 u2 6 (ucast (drop_bit 48 timeNow));
               u4 = PutUint16 u3 8 clockSeq
           in case getHardwareAddr g1 of
                ((hw, Some err), g2) \<Rightarrow>
                  ((Nil_UUID, Some (ErrWrap ''failed to get hardware address'' err)), g2)
              | ((hw, None), g2) \<Rightarrow>
                  (let u5 = splice u4 10 (copy (drop 10 u4) hw);
                       u6 = SetVersion u5 V1;
                       u7 = SetVariant u6 VariantRFC4122
                   in ((u7, None), g2))))"

text \<open>NewV2 returns DCE Security UUID based on POSIX UID/GID.\<close>

definition NewV2 ::
  "dce \<Rightarrow> rfc4122Generator \<Rightarrow> byte \<Rightarrow> (UUID \<times> error option) \<times> rfc4122Generator" where
  "NewV2 env g domain =
     (case NewV1 g of
        ((u, Some err), g1) \<Rightarrow> ((Nil_UUID, Some err), g1)
      | ((u, None), g1) \<Rightarrow>
          (let u1 = (if domain = DomainPerson env then PutUint32 u 0 (posixUID env)
                     else if domain = DomainGroup env then PutUint32 u 0 (posixGID env)
                     else u);
               u2 = u1[9 := domain];
               u3 = SetVersion u2 V2;
               u4 = SetVariant u3 VariantRFC4122
           in ((u4, None), g1)))"

text \<open>NewV4 returns random generated UUID.\<close>

definition NewV4 :: "rfc4122Generator \<Rightarrow> (UUID \<times> error option) \<times> rfc4122Generator" where
  "NewV4 g =
     (case ReadFull g (replicate 16 0) of
        ((u, Some err), g1) \<Rightarrow>
          ((Nil_UUID, Some (ErrWrap ''failed to generate random UUID'' err)), g1)
      | ((u, None), g1) \<Rightarrow> ((finalizeUUID u V4, None), g1))"

text \<open>NewV6 returns UUID v6.\<close>

definition NewV6 :: "rfc4122Generator \<Rightarrow> (UUID \<times> error option) \<times> rfc4122Generator" where
  "NewV6 g =
     (case getClockSequence g of
        ((timeNow, clockSeq, Some err), g1) \<Rightarrow>
          ((Nil_UUID, Some (ErrWrap ''failed to get clock sequence'' err)), g1)
      | ((timeNow, clockSeq, None), g1) \<Rightarrow>
          (let u0 = replicate 16 0;
               u1 = PutUint16 u0 0 (ucast (drop_bit 48 timeNow));
               u2 = PutUint32 u1 2 (ucast (drop_bit 16 timeNow));
               u3 = PutUint16 u2 6 (ucast timeNow);
               u4 = PutUint16 u3 8 clockSeq
           in case getHardwareAddr g1 of
                ((hw, Some err), g2) \<Rightarrow>
                  ((Nil_UUID, Some (ErrWrap ''failed to get hardware address'' err)), g2)
              | ((hw, None), g2) \<Rightarrow>
                  (let u5 = splice u4 10 (copy (drop 10 u4) hw);
                       u6 = SetVersion u5 V6;
                       u7 = SetVariant u6 VariantRFC4122
                   in ((u7, None), g2))))"

definition putUint48 :: "byte list \<Rightarrow> u64 \<Rightarrow> byte list" where
  "putUint48 b v =
     (if length b < 6 then b
      else b[0 := ucast (drop_bit 40 v), 1 := ucast (drop_bit 32 v),
             2 := ucast (drop_bit 24 v), 3 := ucast (drop_bit 16 v),
             4 := ucast (drop_bit 8 v), 5 := ucast v])"

text \<open>NewV7 returns UUID v7. It reads \<^verbatim>\<open>time.Now()\<close>, not \<^verbatim>\<open>g.epochFunc\<close>: \<open>now\<close> is
  \<^verbatim>\<open>time.Now().UnixNano()\<close>, an \<^verbatim>\<open>int64\<close>.\<close>

definition NewV7 ::
  "rfc4122Generator \<Rightarrow> u64 \<Rightarrow> (UUID \<times> error option) \<times> rfc4122Generator" where
  "NewV7 g now =
     (let u0 = replicate 16 0;
          timeNow = sdiv64 now 1000000;
          u1 = splice u0 0 (putUint48 (take 6 u0) timeNow)
      in case ReadFull g (drop 6 u1) of
           ((rnd, Some err), g1) \<Rightarrow>
             ((Nil_UUID, Some (ErrWrap ''failed to generate random data for UUID V7'' err)), g1)
         | ((rnd, None), g1) \<Rightarrow>
             (let u2 = splice u1 6 rnd;
                  u3 = SetVersion u2 V7;
                  u4 = SetVariant u3 VariantRFC4122
              in ((u4, None), g1)))"

text \<open>Modelled from the spec: \<^verbatim>\<open>NamespaceDNS\<close> of uuid.go, the identifier of the literal
  scenarios, \<^verbatim>\<open>6ba7b810-9dad-11d1-80b4-00c04fd430c8\<close>.\<close>

definition NamespaceDNS :: UUID where
  "NamespaceDNS =
     [0x6b, 0xa7, 0xb8, 0x10, 0x9d, 0xad, 0x11, 0xd1,
      0x80, 0xb4, 0x00, 0xc0, 0x4f, 0xd4, 0x30, 0xc8]"

text \<open>What "the canonical lower-case hyphenated 36-character form" asks of a text: 36
  characters, a dash at the offsets 8, 13, 18 and 23, and lower-case hexadecimal digits
  in the five groups between them.\<close>

definition isCanonicalText :: "string \<Rightarrow> bool" where
  "isCanonicalText t \<longleftrightarrow>
     length t = 36 \<and>
     t ! 8 = CHR ''-'' \<and> t ! 13 = CHR ''-'' \<and> t ! 18 = CHR ''-'' \<and> t ! 23 = CHR ''-'' \<and>
     set (take 8 t @ take 4 (drop 9 t) @ take 4 (drop 14 t) @ take 4 (drop 19 t) @ drop 24 t)
       \<subseteq> set hextable"

section \<open>crypto/md5 and crypto/sha1 of the Go library\<close>

text \<open>
  \<^verbatim>\<open>md5.New()\<close> and \<^verbatim>\<open>sha1.New()\<close> are not code of this repository. The two digests are
  written here after the standards the packages implement, RFC 1321 and FIPS 180, as
  functions from the bytes written to the hash to the bytes \<^verbatim>\<open>Sum(nil)\<close> returns.
\<close>

text \<open>Both digests compute on 32-bit words. A word is held as an \<open>int\<close> between \<open>0\<close> and
  \<open>2 ^ 32\<close>, with the wrap-around of the addition, the complement and the rotation
  written out.\<close>

definition add32 :: "int \<Rightarrow> int \<Rightarrow> int" where
  "add32 a b = (a + b) mod 4294967296"

definition not32 :: "int \<Rightarrow> int" where
  "not32 a = 4294967295 - a"

definition rotl32 :: "nat \<Rightarrow> int \<Rightarrow> int" where
  "rotl32 n w = (w * 2 ^ n) mod 4294967296 OR w div 2 ^ (32 - n)"

text \<open>The first \<open>n\<close> blocks of 64 bytes.\<close>

primrec chunks :: "nat \<Rightarrow> byte list \<Rightarrow> byte list list" where
  "chunks 0 bs = []"
| "chunks (Suc n) bs = take 64 bs # chunks n (drop 64 bs)"

text \<open>A block as 32-bit words, four bytes each, read by \<open>f\<close> (little-endian for MD5,
  big-endian for SHA-1).\<close>

fun words32 :: "(byte list \<Rightarrow> int) \<Rightarrow> byte list \<Rightarrow> int list" where
  "words32 f (a # b # c # d # bs) = f [a, b, c, d] # words32 f bs"
| "words32 f bs = []"

definition le32 :: "byte list \<Rightarrow> int" where
  "le32 b = uint (b ! 0) + 256 * uint (b ! 1) + 65536 * uint (b ! 2) + 16777216 * uint (b ! 3)"

definition be32 :: "byte list \<Rightarrow> int" where
  "be32 b = uint (b ! 3) + 256 * uint (b ! 2) + 65536 * uint (b ! 1) + 16777216 * uint (b ! 0)"

definition putLE32 :: "int \<Rightarrow> byte list" where
  "putLE32 v =
     [of_int (v mod 256), of_int (v div 256 mod 256), of_int (v div 65536 mod 256),
      of_int (v div 16777216 mod 256)]"

definition putBE32 :: "int \<Rightarrow> byte list" where
  "putBE32 v = rev (putLE32 v)"

definition putLE64 :: "int \<Rightarrow> byte list" where
  "putLE64 v = putLE32 (v mod 4294967296) @ putLE32 (v div 4294967296 mod 4294967296)"

definition putBE64 :: "int \<Rightarrow> byte list" where
  "putBE64 v = rev (putLE64 v)"

text \<open>The message with the padding both digests use: the byte \<open>0x80\<close>, zero bytes up to 56
  modulo 64, and the length of the message in bits as 64 bits.\<close>

definition padding :: "(int \<Rightarrow> byte list) \<Rightarrow> byte list \<Rightarrow> byte list" where
  "padding putLen msg =
     msg @ [0x80] @ replicate ((119 - length msg mod 64) mod 64) 0 @
     putLen (8 * int (length msg))"

subsection \<open>MD5 (RFC 1321)\<close>

text \<open>The table \<open>T[i] = floor (2 ^ 32 * abs (sin (i + 1)))\<close> and the shift amounts.\<close>

definition md5K :: "int list" where
  "md5K =
     [0xd76aa478, 0xe8c7b756, 0x242070db, 0xc1bdceee, 0xf57c0faf, 0x4787c62a, 0xa8304613,
      0xfd469501, 0x698098d8, 0x8b44f7af, 0xffff5bb1, 0x895cd7be, 0x6b901122, 0xfd987193,
      0xa679438e, 0x49b40821, 0xf61e2562, 0xc040b340, 0x265e5a51, 0xe9b6c7aa, 0xd62f105d,
      0x02441453, 0xd8a1e681, 0xe7d3fbc8, 0x21e1cde6, 0xc33707d6, 0xf4d50d87, 0x455a14ed,
      0xa9e3e905, 0xfcefa3f8, 0x676f02d9, 0x8d2a4c8a, 0xfffa3942, 0x8771f681, 0x6d9d6122,
      0xfde5380c, 0xa4beea44, 0x4bdecfa9, 0xf6bb4b60, 0xbebfbc70, 0x289b7ec6, 0xeaa127fa,
      0xd4ef3085, 0x04881d05, 0xd9d4d039, 0xe6db99e5, 0x1fa27cf8, 0xc4ac5665, 0xf4292244,
      0x432aff97, 0xab9423a7, 0xfc93a039, 0x655b59c3, 0x8f0ccc92, 0xffeff47d, 0x85845dd1,
      0x6fa87e4f, 0xfe2ce6e0, 0xa3014314, 0x4e0811a1, 0xf7537e82, 0xbd3af235, 0x2ad7d2bb,
      0xeb86d391]"

definition md5S :: "nat list" where
  "md5S =
     [7, 12, 17, 22, 7, 12, 17, 22, 7, 12, 17, 22, 7, 12, 17, 22,
      5, 9, 14, 20, 5, 9, 14, 20, 5, 9, 14, 20, 5, 9, 14, 20,
      4, 11, 16, 23, 4, 11, 16, 23, 4, 11, 16, 23, 4, 11, 16, 23,
      6, 10, 15, 21, 6, 10, 15, 21, 6, 10, 15, 21, 6, 10, 15, 21]"

text \<open>One of the 64 steps on a block \<open>m\<close> of sixteen words.\<close>

definition md5Round :: "int list \<Rightarrow> nat \<Rightarrow> int \<times> int \<times> int \<times> int \<Rightarrow> int \<times> int \<times> int \<times> int" where
  "md5Round m i s =
     (case s of (a, b, c, d) \<Rightarrow>
        let (f, g) =
              (if i < 16 then ((b AND c) OR (not32 b AND d), i)
               else if i < 32 then ((d AND b) OR (not32 d AND c), (5 * i + 1) mod 16)
               else if i < 48 then (b XOR c XOR d, (3 * i + 5) mod 16)
               else (c XOR (b OR not32 d), (7 * i) mod 16));
            f' = add32 (add32 (add32 f a) (md5K ! i)) (m ! g)
        in (d, add32 b (rotl32 (md5S ! i) f'), b, c))"

definition md5Block :: "int \<times> int \<times> int \<times> int \<Rightarrow> byte list \<Rightarrow> int \<times> int \<times> int \<times> int" where
  "md5Block s blk =
     (case s of (a0, b0, c0, d0) \<Rightarrow>
        (case fold (md5Round (words32 le32 blk)) [0..<64] s of
           (a, b, c, d) \<Rightarrow> (add32 a0 a, add32 b0 b, add32 c0 c, add32 d0 d)))"

definition md5Sum :: "byte list \<Rightarrow> byte list" where
  "md5Sum msg =
     (let p = padding putLE64 msg in
      case fold (\<lambda>blk s. md5Block s blk) (chunks (length p div 64) p)
             (0x67452301, 0xefcdab89, 0x98badcfe, 0x10325476) of
        (a, b, c, d) \<Rightarrow> putLE32 a @ putLE32 b @ putLE32 c @ putLE32 d)"

subsection \<open>SHA-1 (FIPS 180)\<close>

text \<open>The message schedule: the words 16 to 79, each from the words 3, 8, 14 and 16
  places before it.\<close>

definition sha1Schedule :: "int list \<Rightarrow> int list" where
  "sha1Schedule w0 =
     fold (\<lambda>t w. w @ [rotl32 1 (w ! (t - 3) XOR w ! (t - 8) XOR w ! (t - 14) XOR w ! (t - 16))])
       [16..<80] w0"

definition sha1Round ::
  "int list \<Rightarrow> nat \<Rightarrow> int \<times> int \<times> int \<times> int \<times> int \<Rightarrow> int \<times> int \<times> int \<times> int \<times> int" where
  "sha1Round w t s =
     (case s of (a, b, c, d, e) \<Rightarrow>
        let (f, k) =
              (if t < 20 then ((b AND c) OR (not32 b AND d), 0x5A827999)
               else if t < 40 then (b XOR c XOR d, 0x6ED9EBA1)
               else if t < 60 then ((b AND c) OR (b AND d) OR (c AND d), 0x8F1BBCDC)
               else (b XOR c XOR d, 0xCA62C1D6));
            temp = add32 (add32 (add32 (add32 (rotl32 5 a) f) e) k) (w ! t)
        in (temp, a, rotl32 30 b, c, d))"

definition sha1Block ::
  "int \<times> int \<times> int \<times> int \<times> int \<Rightarrow> byte list \<Rightarrow> int \<times> int \<times> int \<times> int \<times> int" where
  "sha1Block s blk =
     (case s of (h0, h1, h2, h3, h4) \<Rightarrow>
        (case fold (sha1Round (sha1Schedule (words32 be32 blk))) [0..<80] s of
           (a, b, c, d, e) \<Rightarrow>
             (add32 h0 a, add32 h1 b, add32 h2 c, add32 h3 d, add32 h4 e)))"

definition sha1Sum :: "byte list \<Rightarrow> byte list" where
  "sha1Sum msg =
     (let p = padding putBE64 msg in
      case fold (\<lambda>blk s. sha1Block s blk) (chunks (length p div 64) p)
             (0x67452301, 0xEFCDAB89, 0x98BADCFE, 0x10325476, 0xC3D2E1F0) of
        (a, b, c, d, e) \<Rightarrow> putBE32 a @ putBE32 b @ putBE32 c @ putBE32 d @ putBE32 e)"

section \<open>Hash-based identifiers (generator.go)\<close>

text \<open>The bytes of a Go string.\<close>

definition bytesOf :: "string \<Rightarrow> byte list" where
  "bytesOf name = map of_char name"

text \<open>Returns UUID based on hashing of namespace UUID and name. \<open>h\<close> is the digest of the
  hash handed in: what \<^verbatim>\<open>Sum(nil)\<close> returns after the bytes were written.\<close>

definition newFromHash :: "(byte list \<Rightarrow> byte list) \<Rightarrow> UUID \<Rightarrow> string \<Rightarrow> UUID" where
  "newFromHash h ns name = copy (replicate 16 0) (h (ns @ bytesOf name))"

text \<open>NewV3 returns UUID based on MD5 hash of namespace UUID and name; NewV5 returns UUID
  based on SHA-1 hash of namespace UUID and name. Neither reads or writes the
  generator.\<close>

definition NewV3 :: "UUID \<Rightarrow> string \<Rightarrow> UUID" where
  "NewV3 ns name = finalizeUUID (newFromHash md5Sum ns name) V3"

definition NewV5 :: "UUID \<Rightarrow> string \<Rightarrow> UUID" where
  "NewV5 ns name = finalizeUUID (newFromHash sha1Sum ns name) V5"

section \<open>Generators for the examples\<close>

text \<open>A generator as \<^verbatim>\<open>newRFC4122Generator\<close> and the tests build it: the three sources
  set, every other field at its zero value.\<close>

definition newGenerator ::
  "(nat \<Rightarrow> byte list) \<Rightarrow> (nat \<Rightarrow> u64) \<Rightarrow> error + byte list \<Rightarrow> rfc4122Generator" where
  "newGenerator rnd ep hw =
     \<lparr>clockSequenceOnce = False, hardwareAddrOnce = False,
      rand = rnd, randCalls = 0, epochFunc = ep, epochCalls = 0, hwAddrFunc = hw,
      lastTime = 0, clockSequence = 0, hardwareAddr = replicate 6 0\<rparr>"

text \<open>The timestamps that \<open>n\<close> calls of \<open>getClockSequence\<close>, one after the other, return
  (a call that fails returns none).\<close>

fun timestamps :: "nat \<Rightarrow> rfc4122Generator \<Rightarrow> u64 list" where
  "timestamps 0 g = []"
| "timestamps (Suc n) g =
     (case getClockSequence g of
        ((timeNow, clockSeq, Some err), g') \<Rightarrow> timestamps n g'
      | ((timeNow, clockSeq, None), g') \<Rightarrow> timeNow # timestamps n g')"

text \<open>A clock that stands still (as in \<^verbatim>\<open>TestNewV1EpochStale\<close>) and a random source that
  delivers \<open>0xff\<close> bytes.\<close>

definition gStale :: rfc4122Generator where
  "gStale =
     newGenerator (\<lambda>k. replicate 16 0xff) (\<lambda>k. 0) (Inr [0x02, 0x42, 0xac, 0x11, 0x00, 0x02])"

text \<open>A clock that reads one second after the Unix epoch first and the epoch itself from
  then on.\<close>

definition gBackward :: rfc4122Generator where
  "gBackward =
     newGenerator
       (\<lambda>k. [0x12, 0x34, 0x56, 0x78, 0x9a, 0xbc, 0xde, 0xf0,
             0x0f, 0x1e, 0x2d, 0x3c, 0x4b, 0x5a, 0x69, 0x78])
       (\<lambda>k. if k = 0 then 1000000000 else 0)
       (Inr [0x02, 0x42, 0xac, 0x11, 0x00, 0x02])"

text \<open>The package variables of a process with user id 1000 and group id 100.\<close>

definition envExample :: dce where
  "envExample = \<lparr>DomainPerson = 0, DomainGroup = 1, posixUID = 1000, posixGID = 100\<rparr>"

text \<open>A clock that moves forward, and a random source whose second delivery is all
  \<open>0xff\<close>.\<close>

definition gForward :: rfc4122Generator where
  "gForward =
     newGenerator (\<lambda>k. if k = 1 then replicate 16 0xff else replicate 16 0x01)
       (\<lambda>k. if k = 0 then 0 else 1000000000)
       (Inr [0x02, 0x42, 0xac, 0x11, 0x00, 0x02])"

text \<open>A random source whose first delivery is all \<open>0xff\<close>.\<close>

definition gTail :: rfc4122Generator where
  "gTail =
     newGenerator (\<lambda>k. if k = 0 then replicate 16 0xff else replicate 16 0x01)
       (\<lambda>k. 0) (Inr [0x02, 0x42, 0xac, 0x11, 0x00, 0x02])"

text \<open>A random source that fails on its first read, as the \<^verbatim>\<open>faultyReader\<close> of
  \<^verbatim>\<open>TestNewV1FaultyRand\<close>; and one that fails on its second read, with no network
  interface, as in \<^verbatim>\<open>TestNewV1MissingNetInterfacesAndFaultyRand\<close>.\<close>

definition gFaulty :: rfc4122Generator where
  "gFaulty =
     newGenerator
       (\<lambda>k. if k = 0 then []
            else [0x12, 0x34, 0x56, 0x78, 0x9a, 0xbc, 0xde, 0xf0,
                  0x0f, 0x1e, 0x2d, 0x3c, 0x4b, 0x5a, 0x69, 0x78])
       (\<lambda>k. 1000000000) (Inr [0x02, 0x42, 0xac, 0x11, 0x00, 0x02])"

definition gFaultyHW :: rfc4122Generator where
  "gFaultyHW =
     newGenerator
       (\<lambda>k. if k = 1 then []
            else [0x12, 0x34, 0x56, 0x78, 0x9a, 0xbc, 0xde, 0xf0,
                  0x0f, 0x1e, 0x2d, 0x3c, 0x4b, 0x5a, 0x69, 0x78])
       (\<lambda>k. 1000000000) (Inl ErrReader)"

section \<open>Big-endian values\<close>

text \<open>The number a byte sequence denotes, most significant byte first, and the six
  bytes that denote a value below \<open>2 ^ 48\<close>: what "48-bit timestamp, big-endian" means.\<close>

fun beValue :: "byte list \<Rightarrow> nat" where
  "beValue [] = 0"
| "beValue (x # xs) = unat x * 256 ^ length xs + beValue xs"

definition bigEndian48 :: "u64 \<Rightarrow> byte list" where
  "bigEndian48 v =
     [ucast (drop_bit 40 v), ucast (drop_bit 32 v), ucast (drop_bit 24 v),
      ucast (drop_bit 16 v), ucast (drop_bit 8 v), ucast v]"

section \<open>Properties of the codec\<close>

subsection \<open>Hexadecimal digits\<close>

lemma length_hexEncode: "length (hexEncode bs) = 2 * length bs"
  by (induction bs) simp_all

lemma fromHexChar_hextable:
  assumes "n < 16"
  shows "fromHexChar (hextable ! n) = Some (of_nat n)"
proof -
  from assms have "n \<in> {0, 1, 2, 3, 4, 5, 6, 7, 8, 9, 10, 11, 12, 13, 14, 15}"
    by (simp only: insert_iff empty_iff) presburger
  then show ?thesis
    by (elim insertE emptyE) (simp_all add: hextable_def fromHexChar_def)
qed

lemma hi_nibble_lt: "unat (drop_bit 4 (v :: byte)) < 16"
proof -
  have "unat (drop_bit 4 v) = unat v div 16"
    by (simp add: drop_bit_eq_div unat_div)
  moreover have "unat v < 256"
    using unsigned_less [of v, where ?'a = nat] by simp
  ultimately show ?thesis by simp
qed

lemma low_mask: "(0x0f :: byte) = mask 4"
  by (simp add: mask_eq_exp_minus_1)

lemma lo_nibble_lt: "unat ((v :: byte) AND 0x0f) < 16"
proof -
  have "take_bit 4 (unat v) < 2 ^ 4"
    by (rule take_bit_nat_less_exp)
  then show ?thesis
    by (simp add: low_mask unsigned_take_bit_eq flip: take_bit_eq_mask)
qed

lemma nibbles_join: "push_bit 4 (drop_bit 4 v) OR (v AND 0x0f) = (v :: byte)"
  unfolding low_mask by (auto simp add: bit_eq_iff bit_simps)

lemma decode_pair:
  "fromHexChar (hextable ! unat (drop_bit 4 (v::byte))) = Some (drop_bit 4 v)"
  "fromHexChar (hextable ! unat ((v::byte) AND 0x0f)) = Some (v AND 0x0f)"
  by (simp_all add: fromHexChar_hextable hi_nibble_lt lo_nibble_lt)

lemma hextable_nth_mem:
  assumes "n < 16"
  shows "hextable ! n \<in> set hextable"
proof -
  from assms have "n < length hextable"
    by (simp add: hextable_def)
  then show ?thesis
    by (rule nth_mem)
qed

lemma set_hexEncode: "set (hexEncode bs) \<subseteq> set hextable"
  by (induction bs) (simp_all add: hextable_nth_mem hi_nibble_lt lo_nibble_lt)

text \<open>Decoding what \<open>hexEncode\<close> wrote stores exactly the encoded bytes.\<close>

lemma hexDecodeLoop_hexEncode:
  "i + length bs \<le> length dst \<Longrightarrow>
   hexDecodeLoop dst i (hexEncode bs) = (take i dst @ bs @ drop (i + length bs) dst, None)"
proof (induction bs arbitrary: dst i)
  case Nil
  then show ?case by simp
next
  case (Cons v bs)
  then have "i < length dst" by simp
  then have upd: "take (Suc i) (dst[i := v]) = take i dst @ [v]"
    by (simp add: take_Suc_conv_app_nth)
  from Cons.prems have "Suc i + length bs \<le> length (dst[i := v])" by simp
  from Cons.IH [OF this] upd \<open>i < length dst\<close> show ?case
    by (simp add: decode_pair nibbles_join)
qed

lemma hexDecode_hexEncode:
  "length dst = length bs \<Longrightarrow> hexDecode dst (hexEncode bs) = (bs, None)"
  using hexDecodeLoop_hexEncode [of 0 bs dst] by (simp add: hexDecode_def)

subsection \<open>The canonical form\<close>

lemma decodeCanonical_groups:
  assumes "length a = 4" "length b = 2" "length c = 2" "length d = 2" "length e = 6"
    and "length u0 = 16"
  shows "decodeCanonical u0
           (hexEncode a @ CHR ''-'' # hexEncode b @ CHR ''-'' # hexEncode c @ CHR ''-'' #
            hexEncode d @ CHR ''-'' # hexEncode e) = (a @ b @ c @ d @ e, None)"
    (is "decodeCanonical u0 ?t = _")
proof -
  have dashes: "checkDashes ?t [8, 13, 18, 23] = None"
    using assms by (simp add: length_hexEncode nth_append)
  have "decodeGroups u0 0 ?t 0 byteGroups = (a @ b @ c @ d @ e, None)"
    using assms
    by (simp add: byteGroups_def length_hexEncode hexDecode_hexEncode splice_def)
  with dashes show ?thesis
    by (simp add: decodeCanonical_def)
qed

lemma groups_of_UUID:
  "take 4 u @ take 2 (drop 4 u) @ take 2 (drop 6 u) @ take 2 (drop 8 u) @ drop 10 u = u"
proof -
  have g4: "take 2 (drop 8 u) @ drop 10 u = drop 8 u"
    using append_take_drop_id [of 2 "drop 8 u"] by simp
  have g3: "take 2 (drop 6 u) @ drop 8 u = drop 6 u"
    using append_take_drop_id [of 2 "drop 6 u"] by simp
  have g2: "take 2 (drop 4 u) @ drop 6 u = drop 4 u"
    using append_take_drop_id [of 2 "drop 4 u"] by simp
  show ?thesis
    by (simp add: g4 g3 g2)
qed

lemma decodeCanonical_String:
  assumes "length u = 16" "length u0 = 16"
  shows "decodeCanonical u0 (String u) = (u, None)"
proof -
  have "decodeCanonical u0 (String u) =
    (take 4 u @ take 2 (drop 4 u) @ take 2 (drop 6 u) @ take 2 (drop 8 u) @ drop 10 u, None)"
    unfolding String_def using assms by (intro decodeCanonical_groups) simp_all
  then show ?thesis
    by (simp add: groups_of_UUID)
qed

lemma length_String: "length u = 16 \<Longrightarrow> length (String u) = 36"
  by (simp add: String_def length_hexEncode)

lemma isCanonicalText_String:
  assumes "length u = 16"
  shows "isCanonicalText (String u)"
proof -
  have "set (hexEncode (take 4 u)) \<subseteq> set hextable"
    and "set (hexEncode (take 2 (drop 4 u))) \<subseteq> set hextable"
    and "set (hexEncode (take 2 (drop 6 u))) \<subseteq> set hextable"
    and "set (hexEncode (take 2 (drop 8 u))) \<subseteq> set hextable"
    and "set (hexEncode (drop 10 u)) \<subseteq> set hextable"
    by (rule set_hexEncode)+
  with assms show ?thesis
    by (simp add: isCanonicalText_def String_def length_hexEncode nth_append)
qed

subsection \<open>Text round trip\<close>

text \<open>
  Claim C3. For every identifier \<open>u\<close> (16 bytes), decoding the text encoding of \<open>u\<close>
  yields \<open>u\<close> back without an error, whatever the receiver held before, through
  \<open>UnmarshalText\<close> and through \<open>FromString\<close>; the text encoding never fails and is
  the canonical lower-case hyphenated 36-character form, whatever the version bits of
  \<open>u\<close> are.
\<close>

theorem C3_text_roundtrip:
  assumes "length u = Size" and "length u0 = Size"
  shows "UnmarshalText u0 (fst (MarshalText u)) = (u, None) \<and>
         FromString (String u) = (u, None) \<and>
         MarshalText u = (String u, None) \<and>
         isCanonicalText (String u)"
  using assms
  by (simp add: UnmarshalText_def MarshalText_def FromString_def length_String
      decodeCanonical_String isCanonicalText_String Size_def)

text \<open>The round trip at \<open>NamespaceDNS\<close>, whose text form the tests give.\<close>

theorem C3_text_roundtrip_witness:
  "UnmarshalText Nil_UUID (fst (MarshalText NamespaceDNS)) = (NamespaceDNS, None) \<and>
   FromString (String NamespaceDNS) = (NamespaceDNS, None) \<and>
   String NamespaceDNS = ''6ba7b810-9dad-11d1-80b4-00c04fd430c8'' \<and>
   isCanonicalText (String NamespaceDNS)"
proof -
  have l: "length NamespaceDNS = Size" "length Nil_UUID = Size"
    by (simp_all add: NamespaceDNS_def Nil_UUID_def Size_def)
  have "String NamespaceDNS = ''6ba7b810-9dad-11d1-80b4-00c04fd430c8''"
    by (simp add: NamespaceDNS_def String_def hextable_def)
  with C3_text_roundtrip [OF l] show ?thesis
    by (simp add: MarshalText_def)
qed

subsection \<open>Binary decoding\<close>

text \<open>
  Claim C4. Binary decoding (\<open>UnmarshalBinary\<close> on a 16-byte receiver, and \<open>FromBytes\<close>)
  succeeds exactly on the inputs of length 16 and returns an error for every other
  length; on success the identifier is the input, byte for byte. Hence decoding the
  binary encoding of a decoded 16-byte input gives the same result as decoding the
  input.
\<close>

theorem C4_binary_decode:
  assumes "length u = Size"
  shows "(length b = 16 \<longrightarrow>
            UnmarshalBinary u b = (b, None) \<and> FromBytes b = (b, None)) \<and>
         (length b \<noteq> 16 \<longrightarrow>
            UnmarshalBinary u b = (u, Some (ErrBinaryLength (length b))) \<and>
            FromBytes b = (Nil_UUID, Some (ErrExpectedBytes 16 (length b)))) \<and>
         (length b = 16 \<longrightarrow>
            UnmarshalBinary u (fst (MarshalBinary (fst (UnmarshalBinary u b)))) =
              UnmarshalBinary u b \<and>
            FromBytes (fst (MarshalBinary (fst (FromBytes b)))) = FromBytes b)"
  using assms
  by (simp add: UnmarshalBinary_def FromBytes_def MarshalBinary_def Bytes_def copy_def Size_def)

text \<open>The statement at a 16-byte input, a 2-byte input and the empty input.\<close>

theorem C4_binary_decode_witness:
  "UnmarshalBinary Nil_UUID NamespaceDNS = (NamespaceDNS, None) \<and>
   FromBytes NamespaceDNS = (NamespaceDNS, None) \<and>
   UnmarshalBinary Nil_UUID [0x6b, 0xa7] = (Nil_UUID, Some (ErrBinaryLength 2)) \<and>
   FromBytes [] = (Nil_UUID, Some (ErrExpectedBytes 16 0)) \<and>
   UnmarshalBinary Nil_UUID (fst (MarshalBinary (fst (UnmarshalBinary Nil_UUID NamespaceDNS)))) =
     UnmarshalBinary Nil_UUID NamespaceDNS"
proof -
  have l: "length Nil_UUID = Size"
    by (simp add: Nil_UUID_def Size_def)
  have n: "length NamespaceDNS = 16"
    by (simp add: NamespaceDNS_def)
  from C4_binary_decode [OF l, of NamespaceDNS] C4_binary_decode [OF l, of "[0x6b, 0xa7]"]
    C4_binary_decode [OF l, of "[]"] n
  show ?thesis by (simp add: MarshalBinary_def Bytes_def)
qed

subsection \<open>Rejected texts\<close>

lemma checkDashes_missing:
  "i \<in> set is \<Longrightarrow> \<forall>j\<in>set is. j < length t \<Longrightarrow> t ! i \<noteq> CHR ''-'' \<Longrightarrow>
   checkDashes t is = Some (ErrIncorrectFormat t)"
  by (induction "is") auto

text \<open>
  Claim C5. Text decoding chooses the decoder by the length of the input alone (32
  hash-like, 36 canonical, 38 braced, 41 and 45 URN) and returns an error, leaving the
  receiver alone, for every input whose length is not 32, 36, 38, 41 or 45. For an input
  of length 36, a character other than a dash at one of the offsets 8, 13, 18, 23 is an
  error; nothing is assumed about the other characters.
\<close>

theorem C5_text_decode_rejects:
  "(length t = 32 \<longrightarrow> UnmarshalText u t = decodeHashLike u t) \<and>
   (length t = 36 \<longrightarrow> UnmarshalText u t = decodeCanonical u t) \<and>
   (length t = 38 \<longrightarrow> UnmarshalText u t = decodeBraced u t) \<and>
   (length t = 41 \<or> length t = 45 \<longrightarrow> UnmarshalText u t = decodeURN u t) \<and>
   (length t \<notin> {32, 36, 38, 41, 45} \<longrightarrow>
      UnmarshalText u t = (u, Some (ErrIncorrectLength t)) \<and>
      FromString t = (Nil_UUID, Some (ErrParseFromString t))) \<and>
   (length t = 36 \<and>
    (t ! 8 \<noteq> CHR ''-'' \<or> t ! 13 \<noteq> CHR ''-'' \<or> t ! 18 \<noteq> CHR ''-'' \<or> t ! 23 \<noteq> CHR ''-'') \<longrightarrow>
      decodeCanonical u t = (u, Some (ErrIncorrectFormat t)) \<and>
      UnmarshalText u t = (u, Some (ErrIncorrectFormat t)) \<and>
      FromString t = (Nil_UUID, Some (ErrParseFromString t)))"
proof -
  have "decodeCanonical v t = (v, Some (ErrIncorrectFormat t))"
    if "length t = 36" and "i \<in> {8, 13, 18, 23}" and "t ! i \<noteq> CHR ''-''" for i v
    using that checkDashes_missing [of i "[8, 13, 18, 23]" t]
    by (auto simp add: decodeCanonical_def)
  then have "decodeCanonical v t = (v, Some (ErrIncorrectFormat t))"
    if "length t = 36"
      and "t ! 8 \<noteq> CHR ''-'' \<or> t ! 13 \<noteq> CHR ''-'' \<or> t ! 18 \<noteq> CHR ''-'' \<or> t ! 23 \<noteq> CHR ''-''"
    for v
    using that by blast
  then show ?thesis
    by (simp add: UnmarshalText_def FromString_def)
qed

text \<open>A text of 35 characters; two texts of 36 valid characters in which one dash is
  misplaced or missing; and the hash-like, braced and URN forms of \<open>NamespaceDNS\<close>, which
  the dispatch hands to the decoder of their length.\<close>

theorem C5_text_decode_rejects_witness:
  "UnmarshalText NamespaceDNS ''6ba7b810-9dad-11d1-80b4-00c04fd430c'' =
     (NamespaceDNS, Some (ErrIncorrectLength ''6ba7b810-9dad-11d1-80b4-00c04fd430c'')) \<and>
   UnmarshalText NamespaceDNS ''6ba7b810-9dad-11d18-0b4-00c04fd430c8'' =
     (NamespaceDNS, Some (ErrIncorrectFormat ''6ba7b810-9dad-11d18-0b4-00c04fd430c8'')) \<and>
   UnmarshalText NamespaceDNS ''6ba7b810-9dad-11d1-80b4000c04fd430c8'' =
     (NamespaceDNS, Some (ErrIncorrectFormat ''6ba7b810-9dad-11d1-80b4000c04fd430c8'')) \<and>
   UnmarshalText Nil_UUID ''6ba7b8109dad11d180b400c04fd430c8'' = (NamespaceDNS, None) \<and>
   UnmarshalText Nil_UUID ''{6ba7b810-9dad-11d1-80b4-00c04fd430c8}'' = (NamespaceDNS, None) \<and>
   UnmarshalText Nil_UUID ''urn:uuid:6ba7b810-9dad-11d1-80b4-00c04fd430c8'' =
     (NamespaceDNS, None) \<and>
   UnmarshalText Nil_UUID ''urn:uuid:6ba7b8109dad11d180b400c04fd430c8'' = (NamespaceDNS, None)"
proof -
  have d: "decodeHashLike Nil_UUID ''6ba7b8109dad11d180b400c04fd430c8'' = (NamespaceDNS, None)"
    "decodeBraced Nil_UUID ''{6ba7b810-9dad-11d1-80b4-00c04fd430c8}'' = (NamespaceDNS, None)"
    "decodeURN Nil_UUID ''urn:uuid:6ba7b810-9dad-11d1-80b4-00c04fd430c8'' = (NamespaceDNS, None)"
    "decodeURN Nil_UUID ''urn:uuid:6ba7b8109dad11d180b400c04fd430c8'' = (NamespaceDNS, None)"
    by code_simp+
  from C5_text_decode_rejects [of "''6ba7b810-9dad-11d1-80b4-00c04fd430c''" NamespaceDNS]
    C5_text_decode_rejects [of "''6ba7b810-9dad-11d18-0b4-00c04fd430c8''" NamespaceDNS]
    C5_text_decode_rejects [of "''6ba7b810-9dad-11d1-80b4000c04fd430c8''" NamespaceDNS]
    C5_text_decode_rejects [of "''6ba7b8109dad11d180b400c04fd430c8''" Nil_UUID]
    C5_text_decode_rejects [of "''{6ba7b810-9dad-11d1-80b4-00c04fd430c8}''" Nil_UUID]
    C5_text_decode_rejects [of "''urn:uuid:6ba7b810-9dad-11d1-80b4-00c04fd430c8''" Nil_UUID]
    C5_text_decode_rejects [of "''urn:uuid:6ba7b8109dad11d180b400c04fd430c8''" Nil_UUID]
  show ?thesis
    by (simp add: d)
qed

subsection \<open>Decoding is not atomic\<close>

text \<open>
  Claim C10. Text decoding can fail after it has written into the receiver. The input
  below has 36 characters, its dashes in place and three valid groups; the fourth group
  holds \<open>z\<close>. \<open>UnmarshalText\<close> returns an error, and the receiver, all zero before, holds
  the eight bytes of the first three groups and the first byte of the fourth.
\<close>

theorem C10_text_decode_not_atomic:
  "UnmarshalText Nil_UUID ''6ba7b810-9dad-11d1-80z4-00c04fd430c8'' =
     ([0x6b, 0xa7, 0xb8, 0x10, 0x9d, 0xad, 0x11, 0xd1, 0x80, 0, 0, 0, 0, 0, 0, 0],
      Some (InvalidByteError CHR ''z'')) \<and>
   fst (UnmarshalText Nil_UUID ''6ba7b810-9dad-11d1-80z4-00c04fd430c8'') \<noteq> Nil_UUID"
  by code_simp

section \<open>Properties of the generator\<close>

subsection \<open>Version and variant bits\<close>

lemma byte_eqI:
  assumes "\<And>n. n \<in> {0, 1, 2, 3, 4, 5, 6, 7} \<Longrightarrow> bit a n = bit b n"
  shows "a = (b :: byte)"
proof (rule bit_word_eqI)
  fix n assume "n < LENGTH(8)"
  then have "n \<in> {0, 1, 2, 3, 4, 5, 6, 7}"
    by (simp only: insert_iff empty_iff len_num1 len_bit0 One_nat_def) presburger
  then show "bit a n = bit b n" by (rule assms)
qed

lemma version_nibble:
  assumes "v < 16"
  shows "drop_bit 4 (((b::byte) AND 0x0f) OR push_bit 4 v) = v"
proof -
  from assms have "v < 2 ^ 4" by simp
  then have v: "take_bit 4 v = v"
    by (simp add: take_bit_eq_mask less_mask_eq)
  have "drop_bit 4 ((b AND 0x0f) OR push_bit 4 v) = take_bit 4 v"
    by (rule byte_eqI) (elim insertE emptyE; simp add: bit_simps)
  then show ?thesis by (simp add: v)
qed

lemma variant_bits_RFC4122:
  "((b AND 0x3f) OR 0x80) AND 0xc0 = (0x80 :: byte)"
  by (rule byte_eqI) (elim insertE emptyE; simp add: bit_simps)

lemma variant_bits_not_111: "((b AND 0x3f) OR 0x80) AND 0xe0 \<noteq> (0xe0 :: byte)"
proof
  assume "((b AND 0x3f) OR 0x80) AND 0xe0 = (0xe0 :: byte)"
  then have "bit (((b AND 0x3f) OR 0x80) AND 0xe0) 6 = bit (0xe0 :: byte) 6" by simp
  then show False
    by (simp add: bit_simps)
qed

lemma variant_bits_not_110: "((b AND 0x3f) OR 0x80) AND 0xe0 \<noteq> (0xc0 :: byte)"
proof
  assume "((b AND 0x3f) OR 0x80) AND 0xe0 = (0xc0 :: byte)"
  then have "bit (((b AND 0x3f) OR 0x80) AND 0xe0) 6 = bit (0xc0 :: byte) 6" by simp
  then show False
    by (simp add: bit_simps)
qed

lemma length_SetVersion [simp]: "length (SetVersion u v) = length u"
  by (simp add: SetVersion_def)

lemma length_SetVariant [simp]: "length (SetVariant u v) = length u"
  by (simp add: SetVariant_def split: variant.split)

lemma length_PutUint16 [simp]: "length (PutUint16 u off v) = length u"
  by (simp add: PutUint16_def)

lemma length_PutUint32 [simp]: "length (PutUint32 u off v) = length u"
  by (simp add: PutUint32_def)

lemma length_copy [simp]: "length (copy dst src) = length dst"
  by (simp add: copy_def)

lemma length_splice: "off + length seg \<le> length u \<Longrightarrow> length (splice u off seg) = length u"
  by (simp add: splice_def)

lemma nth_SetVersion: "i \<noteq> 6 \<Longrightarrow> SetVersion u v ! i = u ! i"
  by (simp add: SetVersion_def)

lemma nth_SetVariant: "i \<noteq> 8 \<Longrightarrow> SetVariant u v ! i = u ! i"
  by (simp add: SetVariant_def split: variant.split)

lemma Version_SetVersion:
  "6 < length u \<Longrightarrow> v < 16 \<Longrightarrow> Version (SetVersion u v) = v"
  unfolding Version_def SetVersion_def
  by (simp only: nth_list_update_eq version_nibble)

lemma Version_SetVariant: "Version (SetVariant u v) = Version u"
  by (simp add: Version_def nth_SetVariant)

lemma Variant_SetVariant_RFC4122:
  "8 < length u \<Longrightarrow> Variant (SetVariant u VariantRFC4122) = VariantRFC4122"
  by (simp add: Variant_def SetVariant_def variant_bits_RFC4122 variant_bits_not_111
      variant_bits_not_110)

lemma stamped:
  assumes "length u = 16" and "v < 16"
  shows "Version (SetVariant (SetVersion u v) VariantRFC4122) = v"
    and "Variant (SetVariant (SetVersion u v) VariantRFC4122) = VariantRFC4122"
    and "length (SetVariant (SetVersion u v) VariantRFC4122) = 16"
    and "i \<noteq> 6 \<Longrightarrow> i \<noteq> 8 \<Longrightarrow> SetVariant (SetVersion u v) VariantRFC4122 ! i = u ! i"
  using assms
  by (simp_all add: Version_SetVariant Version_SetVersion Variant_SetVariant_RFC4122
      nth_SetVariant nth_SetVersion)

lemma length_NewV1:
  "length (fst (fst (NewV1 g))) = 16"
  by (auto simp add: NewV1_def Let_def Nil_UUID_def length_splice split: prod.splits option.splits)

lemma NewV1_error_Nil:
  "snd (fst (NewV1 g)) \<noteq> None \<Longrightarrow> fst (fst (NewV1 g)) = Nil_UUID"
  by (auto simp add: NewV1_def Let_def split: prod.splits option.splits)

subsection \<open>DCE Security identifiers\<close>

lemma NewV2_follows_NewV1:
  "snd (fst (NewV2 env g domain)) = snd (fst (NewV1 g)) \<and>
   snd (NewV2 env g domain) = snd (NewV1 g)"
  by (auto simp add: NewV2_def Let_def split: prod.splits option.splits)

text \<open>
  Claim C9. \<open>NewV2\<close> turns no domain byte down: whatever the byte, it returns the error of
  the \<open>NewV1\<close> call it starts from and none of its own, and leaves the generator as that
  call does. When that call succeeds, \<open>NewV2\<close> succeeds and the identifier has the domain
  byte at index 9, version 2 and the RFC4122 variant. If the domain is neither
  \<open>DomainPerson\<close> nor \<open>DomainGroup\<close>, the bytes 0 to 3 are those of the version 1
  identifier.
\<close>

theorem C9_NewV2_domain:
  "(snd (fst (NewV2 env g domain)) = None \<longleftrightarrow> snd (fst (NewV1 g)) = None) \<and>
   snd (NewV2 env g domain) = snd (NewV1 g) \<and>
   (snd (fst (NewV1 g)) = None \<longrightarrow>
      snd (fst (NewV2 env g domain)) = None \<and>
      fst (fst (NewV2 env g domain)) ! 9 = domain \<and>
      Version (fst (fst (NewV2 env g domain))) = V2 \<and>
      Variant (fst (fst (NewV2 env g domain))) = VariantRFC4122 \<and>
      length (fst (fst (NewV2 env g domain))) = 16 \<and>
      (domain \<noteq> DomainPerson env \<and> domain \<noteq> DomainGroup env \<longrightarrow>
         take 4 (fst (fst (NewV2 env g domain))) = take 4 (fst (fst (NewV1 g)))))"
proof -
  have main: "fst (fst (NewV2 env g domain)) ! 9 = domain \<and>
      Version (fst (fst (NewV2 env g domain))) = V2 \<and>
      Variant (fst (fst (NewV2 env g domain))) = VariantRFC4122 \<and>
      length (fst (fst (NewV2 env g domain))) = 16 \<and>
      (domain \<noteq> DomainPerson env \<and> domain \<noteq> DomainGroup env \<longrightarrow>
         take 4 (fst (fst (NewV2 env g domain))) = take 4 (fst (fst (NewV1 g))))"
    if ok: "snd (fst (NewV1 g)) = None"
  proof -
    obtain u e g1 where v1: "NewV1 g = ((u, e), g1)"
      by (metis prod.collapse)
    with ok have e: "e = None"
      by simp
    from v1 length_NewV1 [of g] have len: "length u = 16" by simp
    define u1 where "u1 = (if domain = DomainPerson env then PutUint32 u 0 (posixUID env)
                       else if domain = DomainGroup env then PutUint32 u 0 (posixGID env)
                       else u)"
    have len1: "length (u1[9 := domain]) = 16"
      using len by (simp add: u1_def)
    have r: "fst (fst (NewV2 env g domain)) =
        SetVariant (SetVersion (u1[9 := domain]) V2) VariantRFC4122"
      using v1 e by (simp add: NewV2_def u1_def Let_def)
    have v: "V2 < 16" by (simp add: V2_def)
    have "take 4 (SetVariant (SetVersion (u1[9 := domain]) V2) VariantRFC4122) = take 4 u"
      if "domain \<noteq> DomainPerson env" "domain \<noteq> DomainGroup env"
      using that by (simp add: u1_def SetVariant_def SetVersion_def)
    with stamped [OF len1 v] len1 v1 show ?thesis
      by (simp add: r)
  qed
  from NewV2_follows_NewV1 [of env g domain] main show ?thesis
    by simp
qed

text \<open>\<open>NewV2\<close> on a fresh generator with the domain bytes 2 and 255, neither of which is a
  selector of \<open>envExample\<close>.\<close>

theorem C9_NewV2_domain_witness:
  "snd (fst (NewV1 gBackward)) = None \<and>
   snd (fst (NewV2 envExample gBackward 2)) = None \<and>
   fst (fst (NewV2 envExample gBackward 2)) ! 9 = 2 \<and>
   Version (fst (fst (NewV2 envExample gBackward 2))) = V2 \<and>
   Variant (fst (fst (NewV2 envExample gBackward 2))) = VariantRFC4122 \<and>
   take 4 (fst (fst (NewV2 envExample gBackward 2))) = take 4 (fst (fst (NewV1 gBackward))) \<and>
   snd (fst (NewV2 envExample gBackward 255)) = None \<and>
   fst (fst (NewV2 envExample gBackward 255)) ! 9 = 255"
proof -
  have ok: "snd (fst (NewV1 gBackward)) = None"
    by code_simp
  have "(2 :: byte) \<noteq> DomainPerson envExample" "(2 :: byte) \<noteq> DomainGroup envExample"
    by (simp_all add: envExample_def)
  with C9_NewV2_domain [of envExample gBackward 2] C9_NewV2_domain [of envExample gBackward 255] ok
  show ?thesis
    by simp
qed

subsection \<open>The clock sequence\<close>

lemma inc_less:
  assumes "(c :: u16) \<noteq> 0xFFFF"
  shows "c < c + 1"
proof -
  have "(0xFFFF :: u16) = - 1" by simp
  with assms have "c \<noteq> - 1" by simp
  then have "\<not> c + 1 \<le> c"
    by (simp add: inc_less_eq_self_iff_eq)
  then show ?thesis by simp
qed

lemma inc_unat: "unat ((c :: u16) + 1) = (unat c + 1) mod 65536"
  by (simp add: unat_word_ariths)

text \<open>What a call of getClockSequence does when the latch has run.\<close>

lemma getClockSequence_latched:
  assumes "clockSequenceOnce g"
  defines "timeNow \<equiv> getEpoch (epochFunc g (epochCalls g))"
  defines "seq1 \<equiv> (if timeNow \<le> lastTime g then clockSequence g + 1 else clockSequence g)"
  shows "getClockSequence g =
           ((timeNow, seq1, None),
            g\<lparr>epochCalls := Suc (epochCalls g), clockSequence := seq1, lastTime := timeNow\<rparr>)"
  using assms by (simp add: getClockSequence_def Let_def)

lemma ReadFull_ok:
  "length buf \<le> length (rand g (randCalls g)) \<Longrightarrow>
   ReadFull g buf = ((take (length buf) (rand g (randCalls g)), None), g\<lparr>randCalls := Suc (randCalls g)\<rparr>)"
  by (simp add: ReadFull_def Let_def)

lemma ReadFull_fail:
  "length (rand g (randCalls g)) < length buf \<Longrightarrow>
   ReadFull g buf = ((copy buf (rand g (randCalls g)), Some ErrReader), g\<lparr>randCalls := Suc (randCalls g)\<rparr>)"
  by (simp add: ReadFull_def Let_def)

lemma getClockSequence_fresh_fail:
  assumes "\<not> clockSequenceOnce g" and "length (rand g (randCalls g)) < 2"
  shows "getClockSequence g =
           ((0, 0, Some (ErrWrap ''failed to read random data for clock sequence'' ErrReader)),
            g\<lparr>randCalls := Suc (randCalls g), clockSequenceOnce := True\<rparr>)"
  using assms by (simp add: getClockSequence_def initClockSequence_def ReadFull_fail)

lemma getClockSequence_fresh_ok:
  assumes "\<not> clockSequenceOnce g" and "2 \<le> length (rand g (randCalls g))"
  defines "timeNow \<equiv> getEpoch (epochFunc g (epochCalls g))"
  defines "seq0 \<equiv> Uint16 (take 2 (rand g (randCalls g)))"
  defines "seq1 \<equiv> (if timeNow \<le> lastTime g then seq0 + 1 else seq0)"
  shows "getClockSequence g =
           ((timeNow, seq1, None),
            g\<lparr>randCalls := Suc (randCalls g), clockSequenceOnce := True,
              epochCalls := Suc (epochCalls g), clockSequence := seq1, lastTime := timeNow\<rparr>)"
  using assms by (simp add: getClockSequence_def initClockSequence_def ReadFull_ok Let_def)

lemma getClockSequence_ok_iff:
  "snd (snd (fst (getClockSequence g))) = None \<longleftrightarrow>
     clockSequenceOnce g \<or> 2 \<le> length (rand g (randCalls g))"
proof (cases "clockSequenceOnce g")
  case True
  then show ?thesis by (simp add: getClockSequence_latched)
next
  case False
  then show ?thesis
    by (cases "2 \<le> length (rand g (randCalls g))")
      (simp_all add: getClockSequence_fresh_ok getClockSequence_fresh_fail)
qed

text \<open>
  Claim C7, as the code has it. On every call of \<open>getClockSequence\<close> that returns without
  an error, the clock sequence is incremented by one, modulo \<open>2 ^ 16\<close>, when the sampled
  timestamp is not greater than \<open>lastTime\<close>, and is left as it is otherwise. The
  incremented value differs from the old one and is greater unless the old one is
  \<open>0xFFFF\<close>. (On the call that runs the latch, the old value is the one just read from the
  random source.)
\<close>

theorem C7_clock_sequence_step:
  assumes "snd (snd (fst (getClockSequence g))) = None"
  shows "let seq0 = (if clockSequenceOnce g then clockSequence g
                     else Uint16 (take 2 (rand g (randCalls g))));
             timeNow = getEpoch (epochFunc g (epochCalls g));
             seq1 = fst (snd (fst (getClockSequence g)))
         in fst (fst (getClockSequence g)) = timeNow \<and>
            clockSequence (snd (getClockSequence g)) = seq1 \<and>
            lastTime (snd (getClockSequence g)) = timeNow \<and>
            (timeNow \<le> lastTime g \<longrightarrow>
               seq1 = seq0 + 1 \<and> seq1 \<noteq> seq0 \<and> unat seq1 = (unat seq0 + 1) mod 65536) \<and>
            (timeNow \<le> lastTime g \<and> seq0 \<noteq> 0xFFFF \<longrightarrow> seq0 < seq1) \<and>
            (lastTime g < timeNow \<longrightarrow> seq1 = seq0)"
proof (cases "clockSequenceOnce g")
  case True
  then show ?thesis
    by (auto simp add: getClockSequence_latched Let_def inc_less inc_unat)
next
  case False
  with assms have "2 \<le> length (rand g (randCalls g))"
    by (simp add: getClockSequence_ok_iff)
  with False show ?thesis
    by (auto simp add: getClockSequence_fresh_ok Let_def inc_less inc_unat)
qed

text \<open>The second call on \<open>gBackward\<close>: the clock went back, the clock sequence goes from
  \<open>0x1234\<close> to \<open>0x1235\<close>.\<close>

theorem C7_clock_sequence_step_witness:
  "fst (getClockSequence (snd (getClockSequence gBackward))) = (122192928000000000, 0x1235, None) \<and>
   lastTime (snd (getClockSequence gBackward)) = 122192928010000000 \<and>
   clockSequence (snd (getClockSequence gBackward)) = 0x1234"
proof -
  have ok: "snd (snd (fst (getClockSequence (snd (getClockSequence gBackward))))) = None"
    by code_simp
  have "lastTime (snd (getClockSequence gBackward)) = 122192928010000000"
    "clockSequence (snd (getClockSequence gBackward)) = 0x1234"
    "clockSequenceOnce (snd (getClockSequence gBackward))"
    "getEpoch (epochFunc (snd (getClockSequence gBackward))
       (epochCalls (snd (getClockSequence gBackward)))) = 122192928000000000"
    by code_simp+
  with C7_clock_sequence_step [OF ok] show ?thesis
    by (simp add: Let_def prod_eq_iff ok)
qed

text \<open>Claim C7 as stated fails when the counter wraps: with a clock that stands still and
  the clock sequence \<open>0xFFFF\<close> read from the random source, the second call samples a
  timestamp that is not greater than the one returned before, and the clock sequence
  goes from \<open>0xFFFF\<close> to \<open>0\<close>.\<close>

theorem C7_counterexample:
  "fst (getClockSequence gStale) = (122192928000000000, 0xFFFF, None) \<and>
   getEpoch (epochFunc (snd (getClockSequence gStale)) (epochCalls (snd (getClockSequence gStale))))
     \<le> lastTime (snd (getClockSequence gStale)) \<and>
   fst (getClockSequence (snd (getClockSequence gStale))) = (122192928000000000, 0, None) \<and>
   \<not> clockSequence (snd (getClockSequence gStale))
       < clockSequence (snd (getClockSequence (snd (getClockSequence gStale))))"
  by code_simp

subsection \<open>Timestamps and the clock\<close>

lemma sdiv_pos:
  fixes a d :: int
  assumes "0 < d"
  shows "a sdiv d = (if 0 \<le> a then a div d else - ((- a) div d))"
  using assms by (auto simp add: signed_divide_int_def sgn_if)

lemma sdiv_pos_mono:
  fixes a b :: int
  assumes "a \<le> b" and "0 < d"
  shows "a sdiv d \<le> b sdiv d"
proof -
  consider "0 \<le> a" | "a < 0" "0 \<le> b" | "b < 0" using assms(1) by linarith
  then show ?thesis
  proof cases
    case 1
    with assms show ?thesis
      by (simp add: sdiv_pos zdiv_mono1)
  next
    case 2
    then have "0 \<le> (- a) div d" "0 \<le> b div d"
      using assms(2) by (simp_all add: pos_imp_zdiv_nonneg_iff)
    with 2 assms(2) show ?thesis
      by (simp add: sdiv_pos)
  next
    case 3
    with assms have "(- b) div d \<le> (- a) div d"
      by (intro zdiv_mono1) simp_all
    with 3 assms show ?thesis
      by (simp add: sdiv_pos)
  qed
qed

lemma sdiv100_bound:
  "- 92233720368547758 \<le> sint (s :: u64) sdiv 100 \<and> sint s sdiv 100 \<le> 92233720368547758"
proof -
  have lo: "- (2 ^ 63) \<le> sint s" and hi: "sint s \<le> 2 ^ 63 - 1"
    using sint_range_size [of s] by (simp_all add: word_size)
  have "(- (2 ^ 63)) sdiv 100 \<le> sint s sdiv 100"
    using lo by (rule sdiv_pos_mono) simp
  moreover have "sint s sdiv 100 \<le> (2 ^ 63 - 1) sdiv (100 :: int)"
    using hi by (rule sdiv_pos_mono) simp
  moreover have "(- (2 ^ 63)) sdiv (100 :: int) = - 92233720368547758"
    and "(2 ^ 63 - 1) sdiv (100 :: int) = 92233720368547758"
    by (simp_all add: sdiv_pos)
  ultimately show ?thesis
    by (simp only:)
qed

lemma uint_getEpoch: "uint (getEpoch s) = 122192928000000000 + sint s sdiv 100"
proof -
  have "(122192928000000000 :: u64) = word_of_int 122192928000000000"
    by simp
  then have "getEpoch s = word_of_int (122192928000000000 + sint s sdiv 100)"
    unfolding getEpoch_def epochStart_def sdiv64_def by (simp only: of_int_add sint_numeral) simp
  then have "uint (getEpoch s) = (122192928000000000 + sint s sdiv 100) mod 2 ^ 64"
    by (simp only: uint_word_of_int) simp
  with sdiv100_bound [of s] show ?thesis
    by simp
qed

lemma getEpoch_mono: "a \<le>s b \<Longrightarrow> getEpoch a \<le> getEpoch b"
  by (simp add: word_le_def uint_getEpoch word_sle_eq sdiv_pos_mono)

lemma sdiv64_ms:
  assumes "0 \<le>s now"
  shows "uint (sdiv64 now 1000000) = sint now div 1000000"
    and "sdiv64 now 1000000 < 2 ^ 48"
proof -
  from assms have nn: "0 \<le> sint now"
    by (simp add: word_sle_eq)
  have hi: "sint now < 2 ^ 63"
    using sint_range_size [of now] by (simp add: word_size)
  from nn have k: "sint now sdiv 1000000 = sint now div 1000000"
    by (simp add: sdiv_pos)
  have "sint now div 1000000 \<le> (2 ^ 63) div 1000000"
    using hi by (intro zdiv_mono1) simp_all
  then have b: "sint now div 1000000 < 2 ^ 48"
    by simp
  from nn have b0: "0 \<le> sint now div 1000000"
    by (simp add: pos_imp_zdiv_nonneg_iff)
  have "uint (sdiv64 now 1000000) = (sint now div 1000000) mod 2 ^ 64"
    unfolding sdiv64_def by (simp only: uint_word_of_int sint_numeral) (simp add: k)
  with b b0 show u: "uint (sdiv64 now 1000000) = sint now div 1000000"
    by simp
  with b show "sdiv64 now 1000000 < 2 ^ 48"
    by (simp add: word_less_def)
qed

subsection \<open>Byte order\<close>

lemma beValue_less: "beValue xs < 256 ^ length xs"
proof (induction xs)
  case Nil
  then show ?case by simp
next
  case (Cons x xs)
  define p :: nat where "p = 256 ^ length xs"
  have "unat x < 256"
    using unsigned_less [of x, where ?'a = nat] by simp
  then have "unat x + 1 \<le> 256" by simp
  then have "(unat x + 1) * p \<le> 256 * p"
    by (rule mult_le_mono1)
  then have "unat x * p + p \<le> 256 * p"
    by (simp add: algebra_simps)
  moreover from Cons.IH have "beValue xs < p"
    by (simp add: p_def)
  ultimately have "unat x * p + beValue xs < 256 * p"
    by linarith
  then show ?case
    by (simp add: p_def)
qed

lemma beValue_head_less:
  assumes "x < y" and "length xs = length ys"
  shows "beValue (x # xs) < beValue (y # ys)"
proof -
  define p :: nat where "p = 256 ^ length xs"
  from assms(1) have "unat x + 1 \<le> unat y"
    by (simp add: word_less_nat_alt)
  then have "(unat x + 1) * p \<le> unat y * p"
    by (rule mult_le_mono1)
  then have "unat x * p + p \<le> unat y * p"
    by (simp add: algebra_simps)
  moreover have "beValue xs < p"
    unfolding p_def by (rule beValue_less)
  ultimately have "unat x * p + beValue xs < unat y * p + beValue ys"
    by linarith
  then show ?thesis
    using assms(2) by (simp add: p_def)
qed

lemma bytesCompare_beValue:
  "length xs = length ys \<Longrightarrow>
   bytesCompare xs ys =
     (if beValue xs < beValue ys then - 1 else if beValue ys < beValue xs then 1 else 0)"
proof (induction xs ys rule: list_induct2)
  case Nil
  then show ?case by simp
next
  case (Cons x xs y ys)
  consider "x < y" | "y < x" | "x = y" by fastforce
  then show ?case
  proof cases
    case 1
    with beValue_head_less [OF 1 Cons.hyps] show ?thesis by simp
  next
    case 2
    with beValue_head_less [OF 2 Cons.hyps [symmetric]] show ?thesis by simp
  next
    case 3
    with Cons show ?thesis by simp
  qed
qed

lemma unat_byte_of: "unat (ucast (drop_bit k (v :: u64)) :: byte) = unat v div 2 ^ k mod 256"
proof -
  have "unat (ucast (drop_bit k v) :: byte) = take_bit 8 (drop_bit k (unat v))"
    by (simp only: unsigned_ucast_eq unat_drop_bit_eq) simp
  then show ?thesis
    by (simp add: take_bit_eq_mod drop_bit_eq_div)
qed

lemma base256_digits:
  fixes n :: nat
  assumes "n < 2 ^ 48"
  shows "n div 2 ^ 40 mod 256 * 256 ^ 5 + (n div 2 ^ 32 mod 256 * 256 ^ 4 +
         (n div 2 ^ 24 mod 256 * 256 ^ 3 + (n div 2 ^ 16 mod 256 * 256 ^ 2 +
         (n div 2 ^ 8 mod 256 * 256 + n mod 256)))) = n"
proof -
  have s1: "n mod 2 ^ 16 = 2 ^ 8 * (n div 2 ^ 8 mod 256) + n mod 2 ^ 8"
    using mod_mult2_eq [of n "2 ^ 8" 256] by simp
  have s2: "n mod 2 ^ 24 = 2 ^ 16 * (n div 2 ^ 16 mod 256) + n mod 2 ^ 16"
    using mod_mult2_eq [of n "2 ^ 16" 256] by simp
  have s3: "n mod 2 ^ 32 = 2 ^ 24 * (n div 2 ^ 24 mod 256) + n mod 2 ^ 24"
    using mod_mult2_eq [of n "2 ^ 24" 256] by simp
  have s4: "n mod 2 ^ 40 = 2 ^ 32 * (n div 2 ^ 32 mod 256) + n mod 2 ^ 32"
    using mod_mult2_eq [of n "2 ^ 32" 256] by simp
  have s5: "n mod 2 ^ 48 = 2 ^ 40 * (n div 2 ^ 40 mod 256) + n mod 2 ^ 40"
    using mod_mult2_eq [of n "2 ^ 40" 256] by simp
  from assms have "n mod 2 ^ 48 = n" by simp
  with s1 s2 s3 s4 s5 show ?thesis
    by simp
qed

lemma beValue_bigEndian48:
  assumes "v < 2 ^ 48"
  shows "beValue (bigEndian48 v) = unat v"
proof -
  from assms have "unat v < 2 ^ 48"
    by (simp add: word_less_nat_alt)
  from base256_digits [OF this] unat_byte_of [of 0 v] show ?thesis
    by (simp add: bigEndian48_def unat_byte_of)
qed

lemma bytesCompare_bigEndian48:
  assumes "v < 2 ^ 48" and "w < 2 ^ 48"
  shows "bytesCompare (bigEndian48 v) (bigEndian48 w) = (if v < w then - 1 else if w < v then 1 else 0)"
proof -
  have "length (bigEndian48 v) = length (bigEndian48 w)"
    by (simp add: bigEndian48_def)
  from bytesCompare_beValue [OF this] assms show ?thesis
    by (simp add: beValue_bigEndian48 word_less_nat_alt)
qed


lemma take6_nth:
  assumes "6 \<le> length u"
  shows "take 6 u = [u ! 0, u ! 1, u ! 2, u ! 3, u ! 4, u ! 5]"
proof (rule nth_equalityI)
  show "length (take 6 u) = length [u ! 0, u ! 1, u ! 2, u ! 3, u ! 4, u ! 5]"
    using assms by simp
next
  fix i assume "i < length (take 6 u)"
  then have "i \<in> {0, 1, 2, 3, 4, 5}"
    by (simp only: insert_iff empty_iff length_take) presburger
  then show "take 6 u ! i = [u ! 0, u ! 1, u ! 2, u ! 3, u ! 4, u ! 5] ! i"
    by (elim insertE emptyE) simp_all
qed

lemma nth_splice_before: "i < off \<Longrightarrow> off \<le> length u \<Longrightarrow> splice u off seg ! i = u ! i"
  by (simp add: splice_def nth_append)

lemma v6_bytes:
  fixes t :: u64
  shows "(ucast (drop_bit 8 (ucast (drop_bit 48 t) :: u16)) :: byte) = ucast (drop_bit 40 (drop_bit 16 t))"
    and "(ucast (ucast (drop_bit 48 t) :: u16) :: byte) = ucast (drop_bit 32 (drop_bit 16 t))"
    and "(ucast (drop_bit 24 (ucast (drop_bit 16 t) :: u32)) :: byte) = ucast (drop_bit 24 (drop_bit 16 t))"
    and "(ucast (drop_bit 16 (ucast (drop_bit 16 t) :: u32)) :: byte) = ucast (drop_bit 16 (drop_bit 16 t))"
    and "(ucast (drop_bit 8 (ucast (drop_bit 16 t) :: u32)) :: byte) = ucast (drop_bit 8 (drop_bit 16 t))"
    and "(ucast (ucast (drop_bit 16 t) :: u32) :: byte) = ucast (drop_bit 16 t)"
  by (rule bit_word_eqI; simp add: bit_simps; fail | rule bit_word_eqI; auto simp add: bit_simps)+

lemma NewV6_leading:
  assumes "snd (fst (NewV6 g)) = None"
  shows "take 6 (fst (fst (NewV6 g))) = bigEndian48 (drop_bit 16 (fst (fst (getClockSequence g))))"
proof -
  obtain t c e g1 where cs: "getClockSequence g = ((t, c, e), g1)"
    by (metis prod.collapse)
  obtain hw e' g2 where hw: "getHardwareAddr g1 = ((hw, e'), g2)"
    by (metis prod.collapse)
  from assms cs hw have e: "e = None" "e' = None"
    by (auto simp add: NewV6_def Let_def split: option.splits)
  define u4 where "u4 = PutUint16 (PutUint16 (PutUint32 (PutUint16 (replicate 16 0) 0
      (ucast (drop_bit 48 t))) 2 (ucast (drop_bit 16 t))) 6 (ucast t)) 8 c"
  define u7 where "u7 = SetVariant (SetVersion (splice u4 10 (copy (drop 10 u4) hw)) V6) VariantRFC4122"
  have r: "fst (fst (NewV6 g)) = u7"
    using cs hw e by (simp add: NewV6_def Let_def u7_def u4_def)
  have len4: "length u4 = 16"
    by (simp add: u4_def)
  then have len7: "length u7 = 16"
    by (simp add: u7_def length_splice)
  have "u7 ! i = u4 ! i" if "i < 6" for i
    using that len4 by (simp add: u7_def nth_SetVariant nth_SetVersion nth_splice_before)
  then have "take 6 u7 = [u4 ! 0, u4 ! 1, u4 ! 2, u4 ! 3, u4 ! 4, u4 ! 5]"
    using len7 by (simp add: take6_nth)
  also have "\<dots> = bigEndian48 (drop_bit 16 t)"
    by (simp add: u4_def PutUint16_def PutUint32_def bigEndian48_def v6_bytes)
  finally show ?thesis
    using cs by (simp add: r)
qed

lemma putUint48_zero: "putUint48 (replicate 6 0) v = bigEndian48 v"
proof -
  have "replicate 6 (0 :: byte) = [0, 0, 0, 0, 0, 0]"
    by code_simp
  then show ?thesis
    by (simp add: putUint48_def bigEndian48_def)
qed

lemma NewV7_leading:
  assumes "snd (fst (NewV7 g now)) = None"
  shows "take 6 (fst (fst (NewV7 g now))) = bigEndian48 (sdiv64 now 1000000)"
proof -
  define u1 where "u1 = splice (replicate 16 0) 0 (bigEndian48 (sdiv64 now 1000000))"
  obtain rnd e g1 where rf: "ReadFull g (drop 6 u1) = ((rnd, e), g1)"
    by (metis prod.collapse)
  from assms rf have e: "e = None"
    by (auto simp add: NewV7_def Let_def putUint48_zero u1_def split: option.splits)
  have len1: "length u1 = 16"
    by (simp add: u1_def splice_def bigEndian48_def)
  from rf e have lenr: "length rnd = 10"
    using len1 by (auto simp add: ReadFull_def Let_def split: if_splits)
  define u4 where "u4 = SetVariant (SetVersion (splice u1 6 rnd) V7) VariantRFC4122"
  have r: "fst (fst (NewV7 g now)) = u4"
    using rf e by (simp add: NewV7_def Let_def putUint48_zero u1_def u4_def)
  have len4: "length u4 = 16"
    using len1 lenr by (simp add: u4_def length_splice)
  have "u4 ! i = u1 ! i" if "i < 6" for i
    using that len1 by (simp add: u4_def nth_SetVariant nth_SetVersion nth_splice_before)
  then have "take 6 u4 = [u1 ! 0, u1 ! 1, u1 ! 2, u1 ! 3, u1 ! 4, u1 ! 5]"
    using len4 by (simp add: take6_nth)
  also have "\<dots> = bigEndian48 (sdiv64 now 1000000)"
    by (simp add: u1_def splice_def bigEndian48_def)
  finally show ?thesis
    by (simp add: r)
qed

lemma NewV7_stamped:
  assumes "snd (fst (NewV7 g now)) = None"
  shows "Version (fst (fst (NewV7 g now))) = V7 \<and>
         Variant (fst (fst (NewV7 g now))) = VariantRFC4122 \<and>
         length (fst (fst (NewV7 g now))) = 16"
proof -
  define u1 where "u1 = splice (replicate 16 0) 0 (bigEndian48 (sdiv64 now 1000000))"
  obtain rnd e g1 where rf: "ReadFull g (drop 6 u1) = ((rnd, e), g1)"
    by (metis prod.collapse)
  from assms rf have e: "e = None"
    by (auto simp add: NewV7_def Let_def putUint48_zero u1_def split: option.splits)
  have len1: "length u1 = 16"
    by (simp add: u1_def splice_def bigEndian48_def)
  from rf e have lenr: "length rnd = 10"
    using len1 by (auto simp add: ReadFull_def Let_def split: if_splits)
  have r: "fst (fst (NewV7 g now)) = SetVariant (SetVersion (splice u1 6 rnd) V7) VariantRFC4122"
    using rf e by (simp add: NewV7_def Let_def putUint48_zero u1_def)
  have l: "length (splice u1 6 rnd) = 16"
    using len1 lenr by (simp add: length_splice)
  have v: "V7 < 16" by (simp add: V7_def)
  from stamped(1-3) [OF l v] show ?thesis
    by (simp add: r)
qed

lemma drop16_less: "drop_bit 16 (t :: u64) < 2 ^ 48"
proof -
  have "unat t < 2 ^ 64"
    using unsigned_less [of t, where ?'a = nat] by simp
  then have "unat t div 2 ^ 16 < 2 ^ 48"
    by simp
  then show ?thesis
    by (simp add: word_less_nat_alt drop_bit_eq_div unat_div)
qed

lemma drop16_mono: "(a :: u64) \<le> b \<Longrightarrow> drop_bit 16 a \<le> drop_bit 16 b"
  by (simp add: word_le_nat_alt drop_bit_eq_div unat_div div_le_mono)

lemma sorted_map_upt:
  assumes "\<And>i j. a \<le> i \<Longrightarrow> i \<le> j \<Longrightarrow> j < b \<Longrightarrow> f i \<le> f j"
  shows "sorted (map f [a..<b])"
  unfolding sorted_iff_nth_mono using assms by simp

lemma timestamps_latched:
  "clockSequenceOnce g \<Longrightarrow>
   timestamps n g = map (\<lambda>k. getEpoch (epochFunc g k)) [epochCalls g..<epochCalls g + n]"
proof (induction n arbitrary: g)
  case 0
  then show ?case by simp
next
  case (Suc n)
  let ?g' = "snd (getClockSequence g)"
  from Suc.prems have g': "clockSequenceOnce ?g'" "epochFunc ?g' = epochFunc g"
    "epochCalls ?g' = Suc (epochCalls g)"
    by (simp_all add: getClockSequence_latched)
  have upt: "[epochCalls g..<epochCalls g + Suc n] =
      epochCalls g # [Suc (epochCalls g)..<Suc (epochCalls g) + n]"
    using upt_conv_Cons [of "epochCalls g" "epochCalls g + Suc n"] by simp
  from Suc.prems have "timestamps (Suc n) g = getEpoch (epochFunc g (epochCalls g)) # timestamps n ?g'"
    by (simp add: getClockSequence_latched)
  also have "timestamps n ?g' =
      map (\<lambda>k. getEpoch (epochFunc g k)) [Suc (epochCalls g)..<Suc (epochCalls g) + n]"
    using Suc.IH [OF g'(1)] by (simp only: g')
  finally show ?case
    by (simp only: upt list.map)
qed

lemma timestamps_range:
  "\<exists>m \<le> n. timestamps n g = map (\<lambda>k. getEpoch (epochFunc g k)) [epochCalls g..<epochCalls g + m]"
proof (cases n)
  case 0
  then show ?thesis by simp
next
  case (Suc n')
  show ?thesis
  proof (cases "clockSequenceOnce g")
    case True
    then show ?thesis
      using timestamps_latched [of g n] by blast
  next
    case False
    let ?g' = "snd (getClockSequence g)"
    show ?thesis
    proof (cases "2 \<le> length (rand g (randCalls g))")
      case True
      with False have g': "clockSequenceOnce ?g'" "epochFunc ?g' = epochFunc g"
        "epochCalls ?g' = Suc (epochCalls g)"
        by (simp_all add: getClockSequence_fresh_ok)
      have upt: "[epochCalls g..<epochCalls g + Suc n'] =
          epochCalls g # [Suc (epochCalls g)..<Suc (epochCalls g) + n']"
        using upt_conv_Cons [of "epochCalls g" "epochCalls g + Suc n'"] by simp
      from False True
      have "timestamps n g = getEpoch (epochFunc g (epochCalls g)) # timestamps n' ?g'"
        by (simp add: Suc getClockSequence_fresh_ok)
      also have "timestamps n' ?g' =
          map (\<lambda>k. getEpoch (epochFunc g k)) [Suc (epochCalls g)..<Suc (epochCalls g) + n']"
        using timestamps_latched [OF g'(1), of n'] by (simp only: g')
      finally have "timestamps n g =
          map (\<lambda>k. getEpoch (epochFunc g k)) [epochCalls g..<epochCalls g + n]"
        by (simp only: upt list.map Suc)
      then show ?thesis by blast
    next
      case short: False
      with False have g': "clockSequenceOnce ?g'" "epochFunc ?g' = epochFunc g"
        "epochCalls ?g' = epochCalls g"
        by (simp_all add: getClockSequence_fresh_fail)
      from False short have "timestamps n g = timestamps n' ?g'"
        by (simp add: Suc getClockSequence_fresh_fail)
      with timestamps_latched [OF g'(1), of n'] g'
      have "timestamps n g = map (\<lambda>k. getEpoch (epochFunc g k)) [epochCalls g..<epochCalls g + n']"
        by simp
      with Suc show ?thesis
        by (intro exI [of _ n']) simp
    qed
  qed
qed

lemma timestamps_sorted:
  assumes "\<forall>i j. epochCalls g \<le> i \<and> i \<le> j \<and> j < epochCalls g + n \<longrightarrow>
             epochFunc g i \<le>s epochFunc g j"
  shows "sorted (timestamps n g)"
proof -
  from timestamps_range [of n g] obtain m where m: "m \<le> n"
    and t: "timestamps n g = map (\<lambda>k. getEpoch (epochFunc g k)) [epochCalls g..<epochCalls g + m]"
    by blast
  have "sorted (map (\<lambda>k. getEpoch (epochFunc g k)) [epochCalls g..<epochCalls g + m])"
  proof (rule sorted_map_upt)
    fix i j assume "epochCalls g \<le> i" "i \<le> j" "j < epochCalls g + m"
    with m assms have "epochFunc g i \<le>s epochFunc g j"
      by simp
    then show "getEpoch (epochFunc g i) \<le> getEpoch (epochFunc g j)"
      by (rule getEpoch_mono)
  qed
  with t show ?thesis by simp
qed

lemma getClockSequence_timestamp:
  "snd (snd (fst (getClockSequence g))) = None \<Longrightarrow>
   fst (fst (getClockSequence g)) = getEpoch (epochFunc g (epochCalls g)) \<and>
   epochFunc (snd (getClockSequence g)) = epochFunc g \<and>
   epochCalls (snd (getClockSequence g)) = Suc (epochCalls g)"
  by (cases "clockSequenceOnce g")
    (simp_all add: getClockSequence_ok_iff getClockSequence_latched getClockSequence_fresh_ok)

lemma getHardwareAddr_clock:
  "epochFunc (snd (getHardwareAddr g)) = epochFunc g \<and>
   epochCalls (snd (getHardwareAddr g)) = epochCalls g"
  by (simp add: getHardwareAddr_def initHardwareAddr_def ReadFull_def Let_def
      split: sum.splits prod.splits option.splits)

lemma NewV6_clock:
  assumes "snd (fst (NewV6 g)) = None"
  shows "snd (snd (fst (getClockSequence g))) = None \<and>
         epochFunc (snd (NewV6 g)) = epochFunc g \<and>
         epochCalls (snd (NewV6 g)) = Suc (epochCalls g)"
proof -
  obtain t c e g1 where cs: "getClockSequence g = ((t, c, e), g1)"
    by (metis prod.collapse)
  obtain hw e' g2 where hw: "getHardwareAddr g1 = ((hw, e'), g2)"
    by (metis prod.collapse)
  from assms cs hw have e: "e = None" "e' = None"
    by (auto simp add: NewV6_def Let_def split: option.splits)
  from cs hw e have "snd (NewV6 g) = g2"
    by (simp add: NewV6_def Let_def)
  with getHardwareAddr_clock [of g1] hw getClockSequence_timestamp [of g] cs e
  show ?thesis by simp
qed

lemma NewV6_order:
  assumes "snd (fst (NewV6 g)) = None" and "snd (fst (NewV6 (snd (NewV6 g)))) = None"
    and "epochFunc g (epochCalls g) \<le>s epochFunc g (Suc (epochCalls g))"
  shows "bytesCompare (take 6 (fst (fst (NewV6 g)))) (take 6 (fst (fst (NewV6 (snd (NewV6 g)))))) \<le> 0"
proof -
  let ?g' = "snd (NewV6 g)"
  let ?t1 = "getEpoch (epochFunc g (epochCalls g))"
  let ?t2 = "getEpoch (epochFunc g (Suc (epochCalls g)))"
  from NewV6_clock [OF assms(1)] getClockSequence_timestamp [of g]
  have t1: "fst (fst (getClockSequence g)) = ?t1" by simp
  from NewV6_clock [OF assms(1)] NewV6_clock [OF assms(2)] getClockSequence_timestamp [of ?g']
  have t2: "fst (fst (getClockSequence ?g')) = ?t2" by simp
  from assms(3) have "?t1 \<le> ?t2" by (rule getEpoch_mono)
  then have "drop_bit 16 ?t1 \<le> drop_bit 16 ?t2" by (rule drop16_mono)
  then have "\<not> drop_bit 16 ?t2 < drop_bit 16 ?t1"
    by (simp only: not_less)
  then have "bytesCompare (bigEndian48 (drop_bit 16 ?t1)) (bigEndian48 (drop_bit 16 ?t2)) \<le> 0"
    by (simp only: bytesCompare_bigEndian48 [OF drop16_less drop16_less] if_False split: if_split)
      simp
  then show ?thesis
    by (simp add: NewV6_leading [OF assms(1)] NewV6_leading [OF assms(2)] t1 t2)
qed

lemma sdiv64_ms_mono:
  assumes "0 \<le>s a" and "a \<le>s b"
  shows "sdiv64 a 1000000 \<le> sdiv64 b 1000000"
proof -
  from assms have b: "0 \<le>s b"
    by (simp add: word_sle_eq)
  from assms(2) have "sint a div 1000000 \<le> sint b div 1000000"
    by (simp add: word_sle_eq zdiv_mono1)
  then show ?thesis
    by (simp add: word_le_def sdiv64_ms(1) [OF assms(1)] sdiv64_ms(1) [OF b])
qed

lemma NewV7_compare:
  assumes "snd (fst (NewV7 g now)) = None" and "snd (fst (NewV7 g' now')) = None"
    and "0 \<le>s now" and "0 \<le>s now'"
  shows "bytesCompare (take 6 (fst (fst (NewV7 g now)))) (take 6 (fst (fst (NewV7 g' now')))) =
           (if sdiv64 now 1000000 < sdiv64 now' 1000000 then - 1
            else if sdiv64 now' 1000000 < sdiv64 now 1000000 then 1 else 0)"
  by (simp only: NewV7_leading [OF assms(1)] NewV7_leading [OF assms(2)]
      bytesCompare_bigEndian48 [OF sdiv64_ms(2) [OF assms(3)] sdiv64_ms(2) [OF assms(4)]])

text \<open>
  Claim C1, as the code has it. \<open>getClockSequence\<close> returns the timestamp it samples, so
  the timestamps of repeated calls are non-decreasing whenever the readings of the clock
  source are; a reading that went back is returned as it is (and answered by the clock
  sequence, claim C7). For two consecutive \<open>NewV6\<close> calls whose clock readings do not
  decrease, and for two consecutive \<open>NewV7\<close> calls whose readings of the system clock are
  not before 1970 and do not decrease, the first six bytes of the second identifier are
  greater than or equal to those of the first.
\<close>

theorem C1_timestamps_follow_clock:
  "(snd (snd (fst (getClockSequence g))) = None \<longrightarrow>
      fst (fst (getClockSequence g)) = getEpoch (epochFunc g (epochCalls g))) \<and>
   ((\<forall>i j. epochCalls g \<le> i \<and> i \<le> j \<and> j < epochCalls g + n \<longrightarrow>
        epochFunc g i \<le>s epochFunc g j) \<longrightarrow>
      sorted (timestamps n g)) \<and>
   (snd (fst (NewV6 g)) = None \<and> snd (fst (NewV6 (snd (NewV6 g)))) = None \<and>
    epochFunc g (epochCalls g) \<le>s epochFunc g (Suc (epochCalls g)) \<longrightarrow>
      bytesCompare (take 6 (fst (fst (NewV6 g))))
        (take 6 (fst (fst (NewV6 (snd (NewV6 g)))))) \<le> 0) \<and>
   (snd (fst (NewV7 g now)) = None \<and> snd (fst (NewV7 (snd (NewV7 g now)) now')) = None \<and>
    0 \<le>s now \<and> now \<le>s now' \<longrightarrow>
      bytesCompare (take 6 (fst (fst (NewV7 g now))))
        (take 6 (fst (fst (NewV7 (snd (NewV7 g now)) now')))) \<le> 0)"
proof -
  have v7: "bytesCompare (take 6 (fst (fst (NewV7 g now))))
        (take 6 (fst (fst (NewV7 (snd (NewV7 g now)) now')))) \<le> 0"
    if ok: "snd (fst (NewV7 g now)) = None" "snd (fst (NewV7 (snd (NewV7 g now)) now')) = None"
      and nn: "0 \<le>s now" and le: "now \<le>s now'"
  proof -
    from nn le have nn': "0 \<le>s now'"
      by (simp add: word_sle_eq)
    from sdiv64_ms_mono [OF nn le] have "\<not> sdiv64 now' 1000000 < sdiv64 now 1000000"
      by simp
    then show ?thesis
      by (simp add: NewV7_compare [OF ok nn nn'])
  qed
  show ?thesis
    using getClockSequence_timestamp [of g] timestamps_sorted [of g n] NewV6_order [of g] v7
    by blast
qed

text \<open>Three calls on \<open>gForward\<close>, whose clock moves forward.\<close>

theorem C1_timestamps_follow_clock_witness:
  "sorted (timestamps 3 gForward) \<and>
   timestamps 3 gForward = [122192928000000000, 122192928010000000, 122192928010000000] \<and>
   fst (fst (getClockSequence gForward)) = 122192928000000000 \<and>
   bytesCompare (take 6 (fst (fst (NewV6 gForward))))
     (take 6 (fst (fst (NewV6 (snd (NewV6 gForward)))))) \<le> 0 \<and>
   bytesCompare (take 6 (fst (fst (NewV7 gForward 1000000))))
     (take 6 (fst (fst (NewV7 (snd (NewV7 gForward 1000000)) 2000000)))) \<le> 0"
proof -
  have mono: "\<forall>i j. epochCalls gForward \<le> i \<and> i \<le> j \<and> j < epochCalls gForward + 3 \<longrightarrow>
      epochFunc gForward i \<le>s epochFunc gForward j"
    by (simp add: gForward_def newGenerator_def word_sle_eq)
  have ok: "snd (snd (fst (getClockSequence gForward))) = None"
    "snd (fst (NewV6 gForward)) = None" "snd (fst (NewV6 (snd (NewV6 gForward)))) = None"
    "snd (fst (NewV7 gForward 1000000)) = None"
    "snd (fst (NewV7 (snd (NewV7 gForward 1000000)) 2000000)) = None"
    by code_simp+
  have step: "epochFunc gForward (epochCalls gForward) \<le>s epochFunc gForward (Suc (epochCalls gForward))"
    by (simp add: gForward_def newGenerator_def word_sle_eq)
  have nn: "(0 :: u64) \<le>s 1000000" "(1000000 :: u64) \<le>s 2000000"
    by (simp_all add: word_sle_eq)
  have ev: "timestamps 3 gForward = [122192928000000000, 122192928010000000, 122192928010000000]"
    "getEpoch (epochFunc gForward (epochCalls gForward)) = 122192928000000000"
    by code_simp+
  from C1_timestamps_follow_clock [of gForward 3 1000000 2000000] mono ok step nn ev
  show ?thesis
    by simp
qed

text \<open>Claim C1 as stated fails on a clock that goes back. On \<open>gBackward\<close> the second call
  of \<open>getClockSequence\<close> returns a smaller timestamp than the first, the second \<open>NewV6\<close>
  identifier has smaller leading bytes than the first, and so has the second \<open>NewV7\<close>
  identifier when the system clock reads 2 ms and then 0 ms after the Unix epoch.\<close>

theorem C1_counterexample:
  "fst (getClockSequence gBackward) = (122192928010000000, 0x1234, None) \<and>
   fst (getClockSequence (snd (getClockSequence gBackward))) = (122192928000000000, 0x1235, None) \<and>
   \<not> fst (fst (getClockSequence gBackward))
       \<le> fst (fst (getClockSequence (snd (getClockSequence gBackward)))) \<and>
   take 6 (fst (fst (NewV6 gBackward))) = [0x01, 0xb2, 0x1d, 0xd2, 0x14, 0x19] \<and>
   take 6 (fst (fst (NewV6 (snd (NewV6 gBackward))))) = [0x01, 0xb2, 0x1d, 0xd2, 0x13, 0x81] \<and>
   bytesCompare (take 6 (fst (fst (NewV6 gBackward))))
     (take 6 (fst (fst (NewV6 (snd (NewV6 gBackward)))))) = 1 \<and>
   take 6 (fst (fst (NewV7 gBackward 2000000))) = [0, 0, 0, 0, 0, 2] \<and>
   take 6 (fst (fst (NewV7 (snd (NewV7 gBackward 2000000)) 0))) = [0, 0, 0, 0, 0, 0] \<and>
   bytesCompare (take 6 (fst (fst (NewV7 gBackward 2000000))))
     (take 6 (fst (fst (NewV7 (snd (NewV7 gBackward 2000000)) 0)))) = 1"
  by code_simp

subsection \<open>Version 7\<close>

text \<open>
  Claim C8, as the code has it. \<open>NewV7\<close> succeeds when the random source delivers the ten
  bytes asked of it. The bytes 0 to 5 of the identifier are, most significant first, the
  low 48 bits of \<^verbatim>\<open>uint64(time.Now().UnixNano() / 1e6)\<close>, with version 7 and the RFC4122
  variant. When the system clock is not before 1970 that value is the milliseconds since
  the Unix epoch, below \<open>2 ^ 48\<close>, and two such identifiers with different millisecond
  timestamps compare on their first six bytes as the timestamps do. With the same
  millisecond the first six bytes are equal, so the order is decided by the random
  bytes.
\<close>

theorem C8_NewV7_timestamp_order:
  "(snd (fst (NewV7 g now)) = None \<longleftrightarrow> 10 \<le> length (rand g (randCalls g))) \<and>
   (snd (fst (NewV7 g now)) = None \<and> snd (fst (NewV7 g' now')) = None \<longrightarrow>
      (let ms = sdiv64 now 1000000; u = fst (fst (NewV7 g now));
           ms' = sdiv64 now' 1000000; u' = fst (fst (NewV7 g' now'))
       in take 6 u = bigEndian48 ms \<and>
          Version u = V7 \<and> Variant u = VariantRFC4122 \<and>
          (ms = ms' \<longrightarrow> take 6 u = take 6 u') \<and>
          (0 \<le>s now \<longrightarrow>
             uint ms = sint now div 1000000 \<and> ms < 2 ^ 48 \<and> beValue (take 6 u) = unat ms) \<and>
          (0 \<le>s now \<and> 0 \<le>s now' \<longrightarrow>
             (ms < ms' \<longrightarrow> bytesCompare (take 6 u) (take 6 u') = - 1) \<and>
             (ms' < ms \<longrightarrow> bytesCompare (take 6 u) (take 6 u') = 1))))"
proof -
  have iff: "snd (fst (NewV7 g now)) = None \<longleftrightarrow> 10 \<le> length (rand g (randCalls g))"
    by (auto simp add: NewV7_def Let_def ReadFull_def splice_def putUint48_def
        split: prod.splits option.splits if_splits)
  have a: "take 6 (fst (fst (NewV7 g now))) = bigEndian48 (sdiv64 now 1000000) \<and>
      Version (fst (fst (NewV7 g now))) = V7 \<and>
      Variant (fst (fst (NewV7 g now))) = VariantRFC4122 \<and>
      (sdiv64 now 1000000 = sdiv64 now' 1000000 \<longrightarrow>
         take 6 (fst (fst (NewV7 g now))) = take 6 (fst (fst (NewV7 g' now'))))"
    if ok: "snd (fst (NewV7 g now)) = None" "snd (fst (NewV7 g' now')) = None"
    using NewV7_leading [OF ok(1)] NewV7_leading [OF ok(2)] NewV7_stamped [OF ok(1)]
    by simp
  have b: "uint (sdiv64 now 1000000) = sint now div 1000000 \<and> sdiv64 now 1000000 < 2 ^ 48 \<and>
      beValue (take 6 (fst (fst (NewV7 g now)))) = unat (sdiv64 now 1000000)"
    if ok: "snd (fst (NewV7 g now)) = None" and nn: "0 \<le>s now"
    using sdiv64_ms [OF nn] NewV7_leading [OF ok]
    by (simp add: beValue_bigEndian48)
  have c: "(sdiv64 now 1000000 < sdiv64 now' 1000000 \<longrightarrow>
        bytesCompare (take 6 (fst (fst (NewV7 g now)))) (take 6 (fst (fst (NewV7 g' now')))) = - 1) \<and>
      (sdiv64 now' 1000000 < sdiv64 now 1000000 \<longrightarrow>
        bytesCompare (take 6 (fst (fst (NewV7 g now)))) (take 6 (fst (fst (NewV7 g' now')))) = 1)"
    if ok: "snd (fst (NewV7 g now)) = None" "snd (fst (NewV7 g' now')) = None"
      and nn: "0 \<le>s now" "0 \<le>s now'"
    using NewV7_compare [OF ok nn] by auto
  from iff a b c show ?thesis
    unfolding Let_def by blast
qed

text \<open>Two identifiers one millisecond apart; and two of the same millisecond of which
  the later one is the smaller.\<close>

theorem C8_NewV7_timestamp_order_witness:
  "snd (fst (NewV7 gTail 1700000000123456789)) = None \<and>
   take 6 (fst (fst (NewV7 gTail 1700000000123456789))) = [0x01, 0x8b, 0xcf, 0xe5, 0x68, 0x7b] \<and>
   beValue (take 6 (fst (fst (NewV7 gTail 1700000000123456789)))) = 1700000000123 \<and>
   bytesCompare (take 6 (fst (fst (NewV7 gTail 1700000000123456789))))
     (take 6 (fst (fst (NewV7 (snd (NewV7 gTail 1700000000123456789)) 1700000000124456789)))) = - 1 \<and>
   Version (fst (fst (NewV7 gTail 1700000000123456789))) = V7 \<and>
   Variant (fst (fst (NewV7 gTail 1700000000123456789))) = VariantRFC4122 \<and>
   take 6 (fst (fst (NewV7 gTail 1700000000123456789))) =
     take 6 (fst (fst (NewV7 (snd (NewV7 gTail 1700000000123456789)) 1700000000123999999))) \<and>
   bytesCompare (fst (fst (NewV7 gTail 1700000000123456789)))
     (fst (fst (NewV7 (snd (NewV7 gTail 1700000000123456789)) 1700000000123999999))) = 1"
proof -
  have same: "bytesCompare (fst (fst (NewV7 gTail 1700000000123456789)))
     (fst (fst (NewV7 (snd (NewV7 gTail 1700000000123456789)) 1700000000123999999))) = 1"
    by code_simp
  have rd: "10 \<le> length (rand gTail (randCalls gTail))"
    by (simp add: gTail_def newGenerator_def)
  have ok: "snd (fst (NewV7 (snd (NewV7 gTail 1700000000123456789)) 1700000000124456789)) = None"
    "snd (fst (NewV7 (snd (NewV7 gTail 1700000000123456789)) 1700000000123999999)) = None"
    by code_simp+
  have nn: "(0 :: u64) \<le>s 1700000000123456789" "(0 :: u64) \<le>s 1700000000124456789"
    by (simp_all add: word_sle_eq)
  have ms: "sdiv64 1700000000123456789 1000000 = 1700000000123"
    "sdiv64 1700000000124456789 1000000 = 1700000000124"
    "sdiv64 1700000000123999999 1000000 = 1700000000123"
    by (simp_all add: sdiv64_def signed_divide_int_def)
  have be: "bigEndian48 1700000000123 = [0x01, 0x8b, 0xcf, 0xe5, 0x68, 0x7b]"
    "bigEndian48 1700000000124 = [0x01, 0x8b, 0xcf, 0xe5, 0x68, 0x7c]"
    by (simp_all add: bigEndian48_def)
  from C8_NewV7_timestamp_order
    [of gTail 1700000000123456789 "snd (NewV7 gTail 1700000000123456789)" 1700000000124456789]
    C8_NewV7_timestamp_order
    [of gTail 1700000000123456789 "snd (NewV7 gTail 1700000000123456789)" 1700000000123999999]
    rd ok nn same show ?thesis
    by (auto simp add: Let_def ms be)
qed

text \<open>Claim C8 as stated fails on a system clock before 1970: the conversion of the
  negative millisecond count to \<^verbatim>\<open>uint64\<close> wraps. With the clock two seconds before the
  Unix epoch and then at it, the timestamps are \<open>- 2000\<close> and \<open>0\<close> milliseconds, the first
  six bytes of the first identifier are \<open>ff ff ff ff f8 30\<close>, those of the second are
  zero, and the earlier identifier compares above the later one.\<close>

theorem C8_counterexample:
  "snd (fst (NewV7 gTail (- 2000000000))) = None \<and>
   snd (fst (NewV7 (snd (NewV7 gTail (- 2000000000))) 0)) = None \<and>
   sint (sdiv64 (- 2000000000) 1000000) = - 2000 \<and> sint (sdiv64 0 1000000) = 0 \<and>
   take 6 (fst (fst (NewV7 gTail (- 2000000000)))) = [0xff, 0xff, 0xff, 0xff, 0xf8, 0x30] \<and>
   take 6 (fst (fst (NewV7 (snd (NewV7 gTail (- 2000000000))) 0))) = [0, 0, 0, 0, 0, 0] \<and>
   bytesCompare (take 6 (fst (fst (NewV7 gTail (- 2000000000)))))
     (take 6 (fst (fst (NewV7 (snd (NewV7 gTail (- 2000000000))) 0)))) = 1"
  by code_simp

subsection \<open>The latches\<close>

lemma NewV4_error_Nil:
  "snd (fst (NewV4 g)) \<noteq> None \<Longrightarrow> fst (fst (NewV4 g)) = Nil_UUID"
  by (auto simp add: NewV4_def split: prod.splits option.splits)

lemma getHardwareAddr_latched:
  "hardwareAddrOnce g \<Longrightarrow> getHardwareAddr g = ((hardwareAddr g, None), g)"
  by (simp add: getHardwareAddr_def)

lemma getHardwareAddr_fresh_fail:
  assumes "\<not> hardwareAddrOnce g" and "hwAddrFunc g = Inl e"
    and "length (rand g (randCalls g)) < length (hardwareAddr g)"
  shows "getHardwareAddr g =
           (([], Some (ErrWrap ''failed to get hardware address'' ErrReader)),
            g\<lparr>randCalls := Suc (randCalls g),
              hardwareAddr := copy (hardwareAddr g) (rand g (randCalls g)),
              hardwareAddrOnce := True\<rparr>)"
  using assms by (simp add: getHardwareAddr_def initHardwareAddr_def ReadFull_fail)

lemma NewV1_clock_failure:
  assumes "\<not> clockSequenceOnce g" and "length (rand g (randCalls g)) < 2"
  shows "NewV1 g =
           ((Nil_UUID, Some (ErrWrap ''failed to get clock sequence''
               (ErrWrap ''failed to read random data for clock sequence'' ErrReader))),
            g\<lparr>randCalls := Suc (randCalls g), clockSequenceOnce := True\<rparr>)"
  using assms by (simp add: NewV1_def getClockSequence_fresh_fail)

lemma getClockSequence_frame:
  "clockSequenceOnce (snd (getClockSequence g)) \<and>
   hardwareAddrOnce (snd (getClockSequence g)) = hardwareAddrOnce g \<and>
   hwAddrFunc (snd (getClockSequence g)) = hwAddrFunc g \<and>
   hardwareAddr (snd (getClockSequence g)) = hardwareAddr g \<and>
   rand (snd (getClockSequence g)) = rand g"
proof (cases "clockSequenceOnce g")
  case True
  then show ?thesis by (simp add: getClockSequence_latched)
next
  case False
  then show ?thesis
    by (cases "2 \<le> length (rand g (randCalls g))")
      (simp_all add: getClockSequence_fresh_ok getClockSequence_fresh_fail)
qed

lemma NewV1_hw_failure:
  assumes "snd (snd (fst (getClockSequence g))) = None"
    and "\<not> hardwareAddrOnce g" and "hwAddrFunc g = Inl e"
    and "length (rand g (randCalls (snd (getClockSequence g)))) < length (hardwareAddr g)"
  shows "fst (NewV1 g) =
           (Nil_UUID, Some (ErrWrap ''failed to get hardware address''
               (ErrWrap ''failed to get hardware address'' ErrReader)))"
    and "hardwareAddrOnce (snd (NewV1 g))" and "clockSequenceOnce (snd (NewV1 g))"
    and "randCalls (snd (NewV1 g)) = Suc (randCalls (snd (getClockSequence g)))"
proof -
  obtain t c e' g1 where cs: "getClockSequence g = ((t, c, e'), g1)"
    by (metis prod.collapse)
  with assms(1) have e': "e' = None" by simp
  from getClockSequence_frame [of g] cs assms
  have g1: "clockSequenceOnce g1" "\<not> hardwareAddrOnce g1" "hwAddrFunc g1 = Inl e"
    "length (rand g1 (randCalls g1)) < length (hardwareAddr g1)"
    by simp_all
  have r: "NewV1 g =
      ((Nil_UUID, Some (ErrWrap ''failed to get hardware address''
               (ErrWrap ''failed to get hardware address'' ErrReader))),
       g1\<lparr>randCalls := Suc (randCalls g1),
          hardwareAddr := copy (hardwareAddr g1) (rand g1 (randCalls g1)),
          hardwareAddrOnce := True\<rparr>)"
    using cs e' by (simp add: NewV1_def Let_def getHardwareAddr_fresh_fail [OF g1(2-4)])
  show "fst (NewV1 g) =
           (Nil_UUID, Some (ErrWrap ''failed to get hardware address''
               (ErrWrap ''failed to get hardware address'' ErrReader)))"
    and "hardwareAddrOnce (snd (NewV1 g))" and "clockSequenceOnce (snd (NewV1 g))"
    and "randCalls (snd (NewV1 g)) = Suc (randCalls (snd (getClockSequence g)))"
    using g1(1) cs by (simp_all add: r)
qed

lemma NewV1_latched:
  assumes "clockSequenceOnce g" and "hardwareAddrOnce g"
  shows "snd (fst (NewV1 g)) = None" and "randCalls (snd (NewV1 g)) = randCalls g"
  using assms
  by (simp_all add: NewV1_def getClockSequence_latched Let_def getHardwareAddr_latched)

lemma NewV4_short:
  "length (rand g (randCalls g)) < 16 \<Longrightarrow>
   NewV4 g = ((Nil_UUID, Some (ErrWrap ''failed to generate random UUID'' ErrReader)),
              g\<lparr>randCalls := Suc (randCalls g)\<rparr>)"
  by (simp add: NewV4_def ReadFull_fail)

lemma NewV4_full:
  "16 \<le> length (rand g (randCalls g)) \<Longrightarrow>
   NewV4 g = ((finalizeUUID (take 16 (rand g (randCalls g))) V4, None),
              g\<lparr>randCalls := Suc (randCalls g)\<rparr>)"
  by (simp add: NewV4_def ReadFull_ok)

lemma NewV4_fails_iff:
  "snd (fst (NewV4 g)) \<noteq> None \<longleftrightarrow> length (rand g (randCalls g)) < 16"
  by (cases "length (rand g (randCalls g)) < 16") (simp_all add: NewV4_short NewV4_full)

lemma getHardwareAddr_fails_iff:
  "snd (fst (getHardwareAddr g)) \<noteq> None \<longleftrightarrow>
     \<not> hardwareAddrOnce g \<and> (\<exists>e. hwAddrFunc g = Inl e) \<and>
     length (rand g (randCalls g)) < length (hardwareAddr g)"
  by (auto simp add: getHardwareAddr_def initHardwareAddr_def ReadFull_def Let_def
      split: sum.splits prod.splits option.splits if_splits)

lemma NewV1_fails_cases:
  "snd (fst (NewV1 g)) \<noteq> None \<longleftrightarrow>
     snd (snd (fst (getClockSequence g))) \<noteq> None \<or>
     snd (fst (getHardwareAddr (snd (getClockSequence g)))) \<noteq> None"
  by (auto simp add: NewV1_def Let_def split: prod.splits option.splits)

lemma NewV1_fails_iff:
  "snd (fst (NewV1 g)) \<noteq> None \<longleftrightarrow>
     (\<not> clockSequenceOnce g \<and> length (rand g (randCalls g)) < 2) \<or>
     (\<not> hardwareAddrOnce g \<and> (\<exists>e. hwAddrFunc g = Inl e) \<and>
      length (rand g (randCalls (snd (getClockSequence g)))) < length (hardwareAddr g))"
  unfolding NewV1_fails_cases getHardwareAddr_fails_iff
  using getClockSequence_frame [of g] getClockSequence_ok_iff [of g]
  by auto

text \<open>
  Claim C2, as the code has it. A generation call whose read of randomness fails returns
  the Nil identifier with an error. \<open>NewV4\<close>, which uses no latch, fails exactly when the
  random source delivers fewer than sixteen bytes, and then changes nothing in the
  generator but the count of reads. \<open>NewV1\<close> fails exactly when the read fails in the
  function of the clock-sequence latch (fewer than two bytes), or in that of the
  node-identifier latch (no hardware address, fewer bytes than the node identifier has).
  In both cases the latch has run and its function is not run again: the next call
  reads no randomness for it and does not fail for that reason.
\<close>

theorem C2_latch_failure:
  "(snd (fst (NewV1 g)) \<noteq> None \<longrightarrow> fst (fst (NewV1 g)) = Nil_UUID) \<and>
   (snd (fst (NewV4 g)) \<noteq> None \<longrightarrow> fst (fst (NewV4 g)) = Nil_UUID) \<and>
   (snd (fst (NewV4 g)) \<noteq> None \<longleftrightarrow> length (rand g (randCalls g)) < 16) \<and>
   (length (rand g (randCalls g)) < 16 \<longrightarrow>
      NewV4 g = ((Nil_UUID, Some (ErrWrap ''failed to generate random UUID'' ErrReader)),
                 g\<lparr>randCalls := Suc (randCalls g)\<rparr>)) \<and>
   (snd (fst (NewV1 g)) \<noteq> None \<longleftrightarrow>
      (\<not> clockSequenceOnce g \<and> length (rand g (randCalls g)) < 2) \<or>
      (\<not> hardwareAddrOnce g \<and> (\<exists>e. hwAddrFunc g = Inl e) \<and>
       length (rand g (randCalls (snd (getClockSequence g)))) < length (hardwareAddr g))) \<and>
   (\<not> clockSequenceOnce g \<and> length (rand g (randCalls g)) < 2 \<longrightarrow>
      fst (NewV1 g) =
        (Nil_UUID, Some (ErrWrap ''failed to get clock sequence''
           (ErrWrap ''failed to read random data for clock sequence'' ErrReader))) \<and>
      clockSequenceOnce (snd (NewV1 g)) \<and>
      randCalls (snd (NewV1 g)) = Suc (randCalls g) \<and>
      snd (snd (fst (getClockSequence (snd (NewV1 g))))) = None \<and>
      randCalls (snd (getClockSequence (snd (NewV1 g)))) = randCalls (snd (NewV1 g))) \<and>
   (snd (snd (fst (getClockSequence g))) = None \<and>
    \<not> hardwareAddrOnce g \<and> hwAddrFunc g = Inl e \<and>
    length (rand g (randCalls (snd (getClockSequence g)))) < length (hardwareAddr g) \<longrightarrow>
      fst (NewV1 g) =
        (Nil_UUID, Some (ErrWrap ''failed to get hardware address''
           (ErrWrap ''failed to get hardware address'' ErrReader))) \<and>
      hardwareAddrOnce (snd (NewV1 g)) \<and>
      randCalls (snd (NewV1 g)) = Suc (randCalls (snd (getClockSequence g))) \<and>
      snd (fst (NewV1 (snd (NewV1 g)))) = None \<and>
      randCalls (snd (NewV1 (snd (NewV1 g)))) = randCalls (snd (NewV1 g)))"
proof -
  have a: "snd (snd (fst (getClockSequence (snd (NewV1 g))))) = None \<and>
      randCalls (snd (getClockSequence (snd (NewV1 g)))) = randCalls (snd (NewV1 g))"
    if "\<not> clockSequenceOnce g" "length (rand g (randCalls g)) < 2"
    using that by (simp add: NewV1_clock_failure getClockSequence_latched)
  have b: "snd (fst (NewV1 (snd (NewV1 g)))) = None \<and>
      randCalls (snd (NewV1 (snd (NewV1 g)))) = randCalls (snd (NewV1 g))"
    if "snd (snd (fst (getClockSequence g))) = None" "\<not> hardwareAddrOnce g"
      "hwAddrFunc g = Inl e"
      "length (rand g (randCalls (snd (getClockSequence g)))) < length (hardwareAddr g)"
    using NewV1_latched [OF NewV1_hw_failure(3) [OF that] NewV1_hw_failure(2) [OF that]]
    by simp
  have c: "(\<not> clockSequenceOnce g \<and> length (rand g (randCalls g)) < 2 \<longrightarrow>
      fst (NewV1 g) =
        (Nil_UUID, Some (ErrWrap ''failed to get clock sequence''
           (ErrWrap ''failed to read random data for clock sequence'' ErrReader))) \<and>
      clockSequenceOnce (snd (NewV1 g)) \<and>
      randCalls (snd (NewV1 g)) = Suc (randCalls g) \<and>
      snd (snd (fst (getClockSequence (snd (NewV1 g))))) = None \<and>
      randCalls (snd (getClockSequence (snd (NewV1 g)))) = randCalls (snd (NewV1 g))) \<and>
   (snd (snd (fst (getClockSequence g))) = None \<and>
    \<not> hardwareAddrOnce g \<and> hwAddrFunc g = Inl e \<and>
    length (rand g (randCalls (snd (getClockSequence g)))) < length (hardwareAddr g) \<longrightarrow>
      fst (NewV1 g) =
        (Nil_UUID, Some (ErrWrap ''failed to get hardware address''
           (ErrWrap ''failed to get hardware address'' ErrReader))) \<and>
      hardwareAddrOnce (snd (NewV1 g)) \<and>
      randCalls (snd (NewV1 g)) = Suc (randCalls (snd (getClockSequence g))) \<and>
      snd (fst (NewV1 (snd (NewV1 g)))) = None \<and>
      randCalls (snd (NewV1 (snd (NewV1 g)))) = randCalls (snd (NewV1 g)))"
    using a b by (simp add: NewV1_clock_failure NewV1_hw_failure)
  have d: "length (rand g (randCalls g)) < 16 \<longrightarrow>
      NewV4 g = ((Nil_UUID, Some (ErrWrap ''failed to generate random UUID'' ErrReader)),
                 g\<lparr>randCalls := Suc (randCalls g)\<rparr>)"
    by (simp add: NewV4_short)
  from NewV1_error_Nil [of g] NewV4_error_Nil [of g] have n:
    "snd (fst (NewV1 g)) \<noteq> None \<longrightarrow> fst (fst (NewV1 g)) = Nil_UUID"
    "snd (fst (NewV4 g)) \<noteq> None \<longrightarrow> fst (fst (NewV4 g)) = Nil_UUID"
    by blast+
  show ?thesis
    by (intro conjI n d c [THEN conjunct1] c [THEN conjunct2] NewV4_fails_iff NewV1_fails_iff)
qed

text \<open>The first call on \<open>gFaulty\<close> fails in the clock-sequence latch, the first call on
  \<open>gFaultyHW\<close> in the node-identifier latch. \<open>NewV4\<close> fails on \<open>gFaulty\<close>, whose first read
  delivers nothing, and succeeds on the next call.\<close>

theorem C2_latch_failure_witness:
  "fst (NewV1 gFaulty) =
     (Nil_UUID, Some (ErrWrap ''failed to get clock sequence''
        (ErrWrap ''failed to read random data for clock sequence'' ErrReader))) \<and>
   clockSequenceOnce (snd (NewV1 gFaulty)) \<and>
   randCalls (snd (NewV1 gFaulty)) = 1 \<and>
   snd (snd (fst (getClockSequence (snd (NewV1 gFaulty))))) = None \<and>
   fst (NewV1 gFaultyHW) =
     (Nil_UUID, Some (ErrWrap ''failed to get hardware address''
        (ErrWrap ''failed to get hardware address'' ErrReader))) \<and>
   hardwareAddrOnce (snd (NewV1 gFaultyHW)) \<and>
   snd (fst (NewV1 (snd (NewV1 gFaultyHW)))) = None \<and>
   fst (NewV4 gFaulty) =
     (Nil_UUID, Some (ErrWrap ''failed to generate random UUID'' ErrReader)) \<and>
   snd (fst (NewV4 (snd (NewV4 gFaulty)))) = None"
proof -
  have f: "\<not> clockSequenceOnce gFaulty" "length (rand gFaulty (randCalls gFaulty)) < 2"
    "randCalls gFaulty = 0" "length (rand gFaulty (randCalls gFaulty)) < 16"
    by (simp_all add: gFaulty_def newGenerator_def)
  have h: "snd (snd (fst (getClockSequence gFaultyHW))) = None"
    "\<not> hardwareAddrOnce gFaultyHW" "hwAddrFunc gFaultyHW = Inl ErrReader"
    "length (rand gFaultyHW (randCalls (snd (getClockSequence gFaultyHW))))
       < length (hardwareAddr gFaultyHW)"
    by code_simp+
  have v: "\<not> length (rand (snd (NewV4 gFaulty)) (randCalls (snd (NewV4 gFaulty)))) < 16"
    by code_simp
  from C2_latch_failure [of gFaulty] C2_latch_failure [of gFaultyHW ErrReader]
    C2_latch_failure [of "snd (NewV4 gFaulty)"] f h v
  show ?thesis
    by simp
qed

text \<open>Claim C2 as stated fails: the latch is not retried. After the failed first call on
  \<open>gFaulty\<close> the second call succeeds without a read of randomness, with the clock
  sequence \<open>0\<close> that was never drawn from the random source; after the failed first call
  on \<open>gFaultyHW\<close> the second call succeeds with the all-zero node identifier, which is
  neither a hardware address nor random bytes with the multicast bit.\<close>

theorem C2_counterexample:
  "fst (NewV1 gFaulty) =
     (Nil_UUID, Some (ErrWrap ''failed to get clock sequence''
        (ErrWrap ''failed to read random data for clock sequence'' ErrReader))) \<and>
   fst (NewV1 (snd (NewV1 gFaulty))) =
     ([0x14, 0x19, 0xd6, 0x80, 0x1d, 0xd2, 0x11, 0xb2, 0x80, 0x00,
       0x02, 0x42, 0xac, 0x11, 0x00, 0x02], None) \<and>
   randCalls (snd (NewV1 gFaulty)) = 1 \<and>
   randCalls (snd (NewV1 (snd (NewV1 gFaulty)))) = 1 \<and>
   clockSequence (snd (NewV1 (snd (NewV1 gFaulty)))) = 0 \<and>
   fst (NewV1 gFaultyHW) =
     (Nil_UUID, Some (ErrWrap ''failed to get hardware address''
        (ErrWrap ''failed to get hardware address'' ErrReader))) \<and>
   fst (NewV1 (snd (NewV1 gFaultyHW))) =
     ([0x14, 0x19, 0xd6, 0x80, 0x1d, 0xd2, 0x11, 0xb2, 0x92, 0x35,
       0x00, 0x00, 0x00, 0x00, 0x00, 0x00], None) \<and>
   randCalls (snd (NewV1 gFaultyHW)) = 2 \<and>
   randCalls (snd (NewV1 (snd (NewV1 gFaultyHW)))) = 2"
  by code_simp

section \<open>Properties of the hash-based identifiers\<close>

lemma length_md5Sum: "length (md5Sum msg) = 16"
  by (simp add: md5Sum_def Let_def putLE32_def split: prod.splits)

lemma length_sha1Sum: "length (sha1Sum msg) = 20"
  by (simp add: sha1Sum_def Let_def putBE32_def putLE32_def split: prod.splits)

text \<open>The digests of \<open>abc\<close> as RFC 1321 and FIPS 180 give them.\<close>

lemma md5Sum_abc:
  "md5Sum (bytesOf ''abc'') =
     [0x90, 0x01, 0x50, 0x98, 0x3c, 0xd2, 0x4f, 0xb0, 0xd6, 0x96, 0x3f, 0x7d, 0x28, 0xe1, 0x7f, 0x72]"
  by code_simp

lemma sha1Sum_abc:
  "sha1Sum (bytesOf ''abc'') =
     [0xa9, 0x99, 0x3e, 0x36, 0x47, 0x06, 0x81, 0x6a, 0xba, 0x3e,
      0x25, 0x71, 0x78, 0x50, 0xc2, 0x6c, 0x9c, 0xd0, 0xd8, 0x9d]"
  by code_simp

lemma newFromHash_md5: "newFromHash md5Sum ns name = md5Sum (ns @ bytesOf name)"
  by (simp add: newFromHash_def copy_def length_md5Sum)

lemma newFromHash_sha1: "newFromHash sha1Sum ns name = take 16 (sha1Sum (ns @ bytesOf name))"
  by (simp add: newFromHash_def copy_def length_sha1Sum)

lemma finalizeUUID_bytes:
  assumes "length d = 16" and "v < 16"
  shows "length (finalizeUUID d v) = 16"
    and "Version (finalizeUUID d v) = v"
    and "Variant (finalizeUUID d v) = VariantRFC4122"
    and "take 6 (finalizeUUID d v) = take 6 d"
    and "finalizeUUID d v ! 6 = (d ! 6 AND 0x0f) OR push_bit 4 v"
    and "finalizeUUID d v ! 7 = d ! 7"
    and "finalizeUUID d v ! 8 = (d ! 8 AND 0x3f) OR 0x80"
    and "drop 9 (finalizeUUID d v) = drop 9 d"
  using assms stamped [OF assms]
  by (simp_all add: finalizeUUID_def SetVariant_def SetVersion_def)

text \<open>
  Claim C6. For every namespace and name, \<open>NewV3\<close> is the MD5 digest, and \<open>NewV5\<close> the
  first 16 bytes of the SHA-1 digest, of the namespace's bytes followed by the name's
  bytes, with the version (3 or 5) in the high four bits of byte 6 and the RFC4122
  variant in the top two bits of byte 8, every other bit being the digest's. Both are
  total functions of the namespace and the name, with no error result. For \<open>NamespaceDNS\<close>
  and the name \<open>www.example.com\<close> the text forms are the two literals.
\<close>

theorem C6_hash_based:
  "(let d = md5Sum (ns @ bytesOf name); u = NewV3 ns name
    in length d = 16 \<and> length u = 16 \<and> Version u = V3 \<and> Variant u = VariantRFC4122 \<and>
       take 6 u = take 6 d \<and> u ! 6 = (d ! 6 AND 0x0f) OR 0x30 \<and> u ! 7 = d ! 7 \<and>
       u ! 8 = (d ! 8 AND 0x3f) OR 0x80 \<and> drop 9 u = drop 9 d) \<and>
   (let d = take 16 (sha1Sum (ns @ bytesOf name)); u = NewV5 ns name
    in length d = 16 \<and> length u = 16 \<and> Version u = V5 \<and> Variant u = VariantRFC4122 \<and>
       take 6 u = take 6 d \<and> u ! 6 = (d ! 6 AND 0x0f) OR 0x50 \<and> u ! 7 = d ! 7 \<and>
       u ! 8 = (d ! 8 AND 0x3f) OR 0x80 \<and> drop 9 u = drop 9 d) \<and>
   String (NewV3 NamespaceDNS ''www.example.com'') = ''5df41881-3aed-3515-88a7-2f4a814cf09e'' \<and>
   String (NewV5 NamespaceDNS ''www.example.com'') = ''2ed6657d-e927-568b-95e1-2665a8aea6a2''"
proof -
  have l3: "length (md5Sum (ns @ bytesOf name)) = 16"
    by (rule length_md5Sum)
  have l5: "length (take 16 (sha1Sum (ns @ bytesOf name))) = 16"
    by (simp add: length_sha1Sum)
  have v: "V3 < 16" "V5 < 16" "push_bit 4 V3 = 0x30" "push_bit 4 V5 = 0x50"
    by (simp_all add: V3_def V5_def)
  have s3: "String (NewV3 NamespaceDNS ''www.example.com'') = ''5df41881-3aed-3515-88a7-2f4a814cf09e''"
    by code_simp
  have s5: "String (NewV5 NamespaceDNS ''www.example.com'') = ''2ed6657d-e927-568b-95e1-2665a8aea6a2''"
    by code_simp
  have g3: "let d = md5Sum (ns @ bytesOf name); u = NewV3 ns name
    in length d = 16 \<and> length u = 16 \<and> Version u = V3 \<and> Variant u = VariantRFC4122 \<and>
       take 6 u = take 6 d \<and> u ! 6 = (d ! 6 AND 0x0f) OR 0x30 \<and> u ! 7 = d ! 7 \<and>
       u ! 8 = (d ! 8 AND 0x3f) OR 0x80 \<and> drop 9 u = drop 9 d"
    using finalizeUUID_bytes [OF l3 v(1)] l3
    by (simp add: Let_def NewV3_def newFromHash_md5 v)
  have g5: "let d = take 16 (sha1Sum (ns @ bytesOf name)); u = NewV5 ns name
    in length d = 16 \<and> length u = 16 \<and> Version u = V5 \<and> Variant u = VariantRFC4122 \<and>
       take 6 u = take 6 d \<and> u ! 6 = (d ! 6 AND 0x0f) OR 0x50 \<and> u ! 7 = d ! 7 \<and>
       u ! 8 = (d ! 8 AND 0x3f) OR 0x80 \<and> drop 9 u = drop 9 d"
    using finalizeUUID_bytes [OF l5 v(2)] l5
    by (simp add: Let_def NewV5_def newFromHash_sha1 v)
  from g3 g5 s3 s5 show ?thesis
    by (intro conjI)
qed

end
